theory Spec2Isabelle
  imports Main
begin

unbundle bit_operations_syntax

section \<open>JavaScript primitives used by the decoder\<close>

text \<open>
  Strings are sequences of UTF-16 code units; the model uses HOL strings, so every code
  unit is below 256. All payloads of the decoder are hexadecimal text, which lies in
  that range. A \<open>bigint\<close> is an \<open>int\<close>. A \<open>number\<close> produced by \<open>parseInt\<close> is
  either \<open>NaN\<close> or the integer that the digits write. Up to \<open>2^53\<close> in absolute value
  that integer is the number itself, which covers every one- and two-digit field read
  here; beyond, the number is the nearest double, and the one place where such a value is
  printed (the block number of a header) says so.
\<close>

datatype error = SyntaxError | TypeError | Error string

datatype number = NaN | Num int

definition isStrWhiteSpace :: "char \<Rightarrow> bool" where
  "isStrWhiteSpace c = (of_char c \<in> {9, 10, 11, 12, 13, 32, 160 :: int})"

definition hexDigit :: "char \<Rightarrow> int option" where
  "hexDigit c = (let n = (of_char c :: int) in
     if 48 \<le> n \<and> n \<le> 57 then Some (n - 48)
     else if 97 \<le> n \<and> n \<le> 102 then Some (n - 87)
     else if 65 \<le> n \<and> n \<le> 70 then Some (n - 55)
     else None)"

definition digitIn :: "int \<Rightarrow> char \<Rightarrow> bool" where
  "digitIn radix c = (case hexDigit c of None \<Rightarrow> False | Some d \<Rightarrow> d < radix)"

definition digitVal :: "char \<Rightarrow> int" where
  "digitVal c = (case hexDigit c of None \<Rightarrow> 0 | Some d \<Rightarrow> d)"

definition radixValue :: "int \<Rightarrow> string \<Rightarrow> int" where
  "radixValue radix s = foldl (\<lambda>acc c. acc * radix + digitVal c) 0 s"

definition isHex :: "string \<Rightarrow> bool" where
  "isHex s = list_all (digitIn 16) s"

definition startsWith :: "string \<Rightarrow> string \<Rightarrow> bool" where
  "startsWith s p = (take (length p) s = p)"

definition substring :: "string \<Rightarrow> nat \<Rightarrow> nat \<Rightarrow> string" where
  "substring s a b = (if a \<le> b then take (b - a) (drop a s) else take (a - b) (drop b s))"

definition strip0x :: "string \<Rightarrow> string" where
  "strip0x hex = (if startsWith hex ''0x'' then drop 2 hex else hex)"

definition trimEnd :: "string \<Rightarrow> string" where
  "trimEnd s = rev (dropWhile isStrWhiteSpace (rev s))"

definition trim :: "string \<Rightarrow> string" where
  "trim s = trimEnd (dropWhile isStrWhiteSpace s)"

definition parseDigits :: "int \<Rightarrow> string \<Rightarrow> error + int" where
  "parseDigits radix s =
     (if s \<noteq> [] \<and> list_all (digitIn radix) s then Inr (radixValue radix s)
      else Inl SyntaxError)"

text \<open>\<open>BigInt(string)\<close>: the text is trimmed; the empty text is \<open>0n\<close>; a \<open>0x\<close>, \<open>0o\<close> or
  \<open>0b\<close> prefix selects the radix and admits no sign; otherwise an optionally signed
  decimal numeral. Anything else raises a SyntaxError.\<close>

definition BigInt :: "string \<Rightarrow> error + int" where
  "BigInt s = (let t = trim s in
     if t = [] then Inr 0
     else if take 2 t = ''0x'' \<or> take 2 t = ''0X'' then parseDigits 16 (drop 2 t)
     else if take 2 t = ''0o'' \<or> take 2 t = ''0O'' then parseDigits 8 (drop 2 t)
     else if take 2 t = ''0b'' \<or> take 2 t = ''0B'' then parseDigits 2 (drop 2 t)
     else if hd t = CHR ''+'' then parseDigits 10 (tl t)
     else if hd t = CHR ''-'' then map_sum id uminus (parseDigits 10 (tl t))
     else parseDigits 10 t)"

text \<open>\<open>parseInt(s, 16)\<close>: leading white space, an optional sign and an optional \<open>0x\<close>
  prefix are skipped, then the longest run of hexadecimal digits is read; no digit at
  all gives \<open>NaN\<close>.\<close>

definition parseInt16 :: "string \<Rightarrow> number" where
  "parseInt16 s = (let t = dropWhile isStrWhiteSpace s;
       neg = (t \<noteq> [] \<and> hd t = CHR ''-'');
       u = (if t \<noteq> [] \<and> (hd t = CHR ''+'' \<or> hd t = CHR ''-'') then tl t else t);
       v = (if take 2 u = ''0x'' \<or> take 2 u = ''0X'' then drop 2 u else u);
       ds = takeWhile (digitIn 16) v
     in if ds = [] then NaN
        else Num (if neg then - radixValue 16 ds else radixValue 16 ds))"

text \<open>\<open>bigint.toString()\<close>: the decimal numeral, with a minus sign below zero.\<close>

definition digitChar :: "int \<Rightarrow> char" where
  "digitChar d = (if d = 0 then CHR ''0'' else if d = 1 then CHR ''1''
     else if d = 2 then CHR ''2'' else if d = 3 then CHR ''3''
     else if d = 4 then CHR ''4'' else if d = 5 then CHR ''5''
     else if d = 6 then CHR ''6'' else if d = 7 then CHR ''7''
     else if d = 8 then CHR ''8'' else CHR ''9'')"

function digitsOf :: "int \<Rightarrow> string" where
  "digitsOf n = (if n < 10 then [digitChar n]
                 else digitsOf (n div 10) @ [digitChar (n mod 10)])"
  by pat_completeness auto
termination
  by (relation "measure nat") auto

declare digitsOf.simps [simp del]

definition toString :: "int \<Rightarrow> string" where
  "toString i = (if i < 0 then CHR ''-'' # digitsOf (- i) else digitsOf i)"

section \<open>IntegerCodec\<close>

fun byteChunks :: "string \<Rightarrow> string list" where
  "byteChunks [] = []"
| "byteChunks [a] = [[a]]"
| "byteChunks (a # b # rest) = [a, b] # byteChunks rest"

definition littleEndianHexToBigInt :: "string \<Rightarrow> error + int" where
  "littleEndianHexToBigInt hex =
     (let hex' = (if length hex mod 2 \<noteq> 0 then CHR ''0'' # hex else hex);
          bytes = byteChunks hex'
      in BigInt (''0x'' @ concat (rev bytes)))"

definition toIntFromBigUint128Le :: "string \<Rightarrow> error + int" where
  "toIntFromBigUint128Le hexStr =
     (let hexStr' = (if startsWith hexStr ''0x'' then drop 2 hexStr else hexStr);
          bytes = byteChunks hexStr'
      in BigInt (''0x'' @ concat (rev bytes)))"

record ParsedEpoch =
  ep_number :: string
  ep_index :: string
  ep_length :: string
  ep_value :: string

definition parseEpoch :: "int \<Rightarrow> ParsedEpoch" where
  "parseEpoch epoch =
     (let number = (drop_bit 0 epoch) AND (push_bit 24 1 - 1);
          index = (drop_bit 24 epoch) AND (push_bit 16 1 - 1);
          len = (drop_bit 40 epoch) AND (push_bit 16 1 - 1)
      in \<lparr> ep_number = toString number, ep_index = toString index,
           ep_length = toString len, ep_value = toString epoch \<rparr>)"

section \<open>LockArgsCodec\<close>

record ParsedLockArgs =
  pubkey_hash :: string
  delay_epoch :: ParsedEpoch
  version :: string
  htlcs :: "string option"
  settlement_hash :: "string option"
  settlement_flag :: "int option"

text \<open>The field offsets of the source (\<open>offset += 40\<close>, \<open>+= 16\<close>, \<open>+= 16\<close>, ...) are
  written as the constants they always are: 0, 40, 56, 72, 112.\<close>

definition parseLockArgs :: "string \<Rightarrow> error + ParsedLockArgs" where
  "parseLockArgs hex =
     (let data = (if startsWith hex ''0x'' then drop 2 hex else hex);
          pubkeyHash = substring data 0 40;
          delayEpochHex = substring data 40 56
      in case littleEndianHexToBigInt delayEpochHex of
           Inl e \<Rightarrow> Inl e
         | Inr delayEpoch \<Rightarrow>
             (let versionHex = substring data 56 72
              in case littleEndianHexToBigInt versionHex of
                   Inl e \<Rightarrow> Inl e
                 | Inr ver \<Rightarrow>
                     (let rest = drop 72 data
                      in Inr \<lparr> pubkey_hash = ''0x'' @ pubkeyHash,
                               delay_epoch = parseEpoch delayEpoch,
                               version = toString ver,
                               htlcs = Some (if rest \<noteq> [] then ''0x'' @ rest else []),
                               settlement_hash = None,
                               settlement_flag = None \<rparr>)))"

definition parseLockArgsV2 :: "string \<Rightarrow> error + ParsedLockArgs" where
  "parseLockArgsV2 hex =
     (let data = (if startsWith hex ''0x'' then drop 2 hex else hex);
          pubkeyHash = substring data 0 40;
          delayEpochHex = substring data 40 56
      in case littleEndianHexToBigInt delayEpochHex of
           Inl e \<Rightarrow> Inl e
         | Inr delayEpoch \<Rightarrow>
             (let versionHex = substring data 56 72
              in case BigInt (''0x'' @ versionHex) of
                   Inl e \<Rightarrow> Inl e
                 | Inr ver \<Rightarrow>
                     (let settlementHash = substring data 72 112;
                          settlementFlagHex = substring data 112 114;
                          settlementFlag = (if settlementFlagHex \<noteq> []
                                            then Some (parseInt16 settlementFlagHex) else None)
                      in Inr \<lparr> pubkey_hash = ''0x'' @ pubkeyHash,
                               delay_epoch = parseEpoch delayEpoch,
                               version = toString ver,
                               htlcs = None,
                               settlement_hash =
                                 Some (if settlementHash \<noteq> [] then ''0x'' @ settlementHash else []),
                               settlement_flag =
                                 (case settlementFlag of
                                    Some (Num n) \<Rightarrow> Some n
                                  | _ \<Rightarrow> None) \<rparr>)))"

section \<open>WitnessCodec\<close>

text \<open>The two date renderings depend on the host's locale and time zone; they are
  parameters of the model. \<open>dateZhCN ms\<close> stands for
  \<open>new Date(Number(ms)).toLocaleString('zh-CN')\<close> and \<open>dateLocal n\<close> for
  \<open>new Date(n).toLocaleString()\<close>, where \<open>n\<close> is the number that \<open>parseInt\<close> made of
  the integer given. Neither raises.

  The third parameter is the print of a number that is not the integer its digits wrote:
  \<open>printDouble i\<close> stands for \<open>parseInt(s, 16).toString()\<close> where the digits of \<open>s\<close>
  write \<open>i\<close> and \<open>i\<close> is above \<open>2^53\<close> in absolute value. It is the print of
  the double nearest to \<open>i\<close> (\<open>18446744073709552000\<close> for \<open>2^64 - 1\<close>, \<open>Infinity\<close> from
  \<open>2^1024\<close> up), which the model does not compute.\<close>

record host =
  dateZhCN :: "int \<Rightarrow> string"
  dateLocal :: "number \<Rightarrow> string"
  printDouble :: "int \<Rightarrow> string"

text \<open>\<open>Number.prototype.toString\<close> on the result of \<open>parseInt\<close>. Every integer up to
  \<open>2^53\<close> in absolute value is a double and prints as its decimal numeral.\<close>

definition numberToString :: "host \<Rightarrow> number \<Rightarrow> string" where
  "numberToString h n =
     (case n of
        NaN \<Rightarrow> ''NaN''
      | Num i \<Rightarrow> if - 9007199254740992 \<le> i \<and> i \<le> 9007199254740992 then toString i
                 else printDouble h i)"

record ParsedHtlc =
  htlc_type :: number
  payment_amount :: string
  payment_hash :: string
  remote_htlc_pubkey_hash :: string
  local_htlc_pubkey_hash :: string
  htlc_expiry :: string
  htlc_expiry_timestamp :: string

record Revocation =
  rv_version :: string
  rv_pubkey :: string
  rv_signature :: string

record NonPendingHtlc =
  np_pubkey :: string
  np_signature :: string

record PendingHtlc =
  ph_pending_htlc_count :: number
  ph_htlcs :: "ParsedHtlc list"
  ph_signature :: string
  ph_preimage :: string

record Unlock =
  ul_unlock_type :: number
  ul_with_preimage :: number
  ul_signature :: string
  ul_preimage :: string

record Settlement =
  st_pending_htlc_count :: number
  st_htlcs :: "ParsedHtlc list"
  settlement_remote_pubkey_hash :: string
  settlement_remote_amount :: string
  settlement_local_pubkey_hash :: string
  settlement_local_amount :: string
  unlocks :: "Unlock list"

text \<open>The \<open>error\<close> field of the source holds the message of the caught exception; the
  message text is the engine's, so the model keeps the exception itself.\<close>

record ParsedWitness =
  empty_witness_args :: string
  unlock_type :: "number option"
  unlock_count :: "number option"
  revocation :: "Revocation option"
  non_pending_htlc :: "NonPendingHtlc option"
  pending_htlc :: "PendingHtlc option"
  settlement :: "Settlement option"
  pw_error :: "error option"

text \<open>A \<open>for (let i = 0; i < count; i++)\<close> loop runs no iteration for \<open>NaN\<close> or a
  negative count.\<close>

definition loopCount :: "number \<Rightarrow> nat" where
  "loopCount n = (case n of NaN \<Rightarrow> 0 | Num i \<Rightarrow> nat i)"

text \<open>One iteration of the HTLC loop (the same text in both decoders): 170 hexadecimal
  characters starting at \<open>offset\<close>.\<close>

definition parseHtlc :: "host \<Rightarrow> string \<Rightarrow> nat \<Rightarrow> error + ParsedHtlc" where
  "parseHtlc h data offset =
     (let htlcType = parseInt16 (substring data offset (offset + 2));
          paymentAmountHex = substring data (offset + 2) (offset + 34)
      in case littleEndianHexToBigInt paymentAmountHex of
           Inl e \<Rightarrow> Inl e
         | Inr paymentAmount \<Rightarrow>
             (let paymentHash = ''0x'' @ substring data (offset + 34) (offset + 74);
                  remoteHash = ''0x'' @ substring data (offset + 74) (offset + 114);
                  localHash = ''0x'' @ substring data (offset + 114) (offset + 154);
                  htlcExpiryHex = substring data (offset + 154) (offset + 170)
              in case littleEndianHexToBigInt htlcExpiryHex of
                   Inl e \<Rightarrow> Inl e
                 | Inr expiry \<Rightarrow>
                     (let ts = (expiry AND (push_bit 56 1 - 1)) * 1000
                      in Inr \<lparr> htlc_type = htlcType,
                               payment_amount = toString paymentAmount,
                               payment_hash = paymentHash,
                               remote_htlc_pubkey_hash = remoteHash,
                               local_htlc_pubkey_hash = localHash,
                               htlc_expiry = dateZhCN h ts,
                               htlc_expiry_timestamp = toString ts \<rparr>)))"

fun parseHtlcs :: "host \<Rightarrow> string \<Rightarrow> nat \<Rightarrow> nat \<Rightarrow> error + (ParsedHtlc list \<times> nat)" where
  "parseHtlcs h data offset 0 = Inr ([], offset)"
| "parseHtlcs h data offset (Suc n) =
     (case parseHtlc h data offset of
        Inl e \<Rightarrow> Inl e
      | Inr htlc \<Rightarrow>
          (case parseHtlcs h data (offset + 170) n of
             Inl e \<Rightarrow> Inl e
           | Inr (rest, offset') \<Rightarrow> Inr (htlc # rest, offset')))"

definition emptyWitness :: "string \<Rightarrow> ParsedWitness" where
  "emptyWitness ewa = \<lparr> empty_witness_args = ewa, unlock_type = None, unlock_count = None,
     revocation = None, non_pending_htlc = None, pending_htlc = None, settlement = None,
     pw_error = None \<rparr>"

definition parseWitness :: "host \<Rightarrow> string \<Rightarrow> error + ParsedWitness" where
  "parseWitness h hex =
     (let data = (if startsWith hex ''0x'' then drop 2 hex else hex);
          emptyWitnessArgs = substring data 0 32;
          unlockType = parseInt16 (substring data 32 34);
          witnessData = (emptyWitness (''0x'' @ emptyWitnessArgs)) \<lparr> unlock_type := Some unlockType \<rparr>
      in if unlockType = Num 255 then
           (case BigInt (''0x'' @ substring data 34 (34 + 16)) of
              Inl e \<Rightarrow> Inl e
            | Inr ver \<Rightarrow>
                Inr (witnessData \<lparr> revocation := Some
                       \<lparr> rv_version = toString ver,
                         rv_pubkey = ''0x'' @ substring data (34 + 16) (34 + 16 + 64),
                         rv_signature = ''0x'' @ drop (34 + 16 + 64) data \<rparr> \<rparr>))
         else if unlockType = Num 254 then
           Inr (witnessData \<lparr> non_pending_htlc := Some
                  \<lparr> np_pubkey = ''0x'' @ substring data 34 (34 + 64),
                    np_signature = ''0x'' @ drop (34 + 64) data \<rparr> \<rparr>)
         else
           (let pendingHtlcCount = parseInt16 (substring data 34 36)
            in case parseHtlcs h data 36 (loopCount pendingHtlcCount) of
                 Inl e \<Rightarrow> Inl e
               | Inr (hs, offset) \<Rightarrow>
                   (let sig = ''0x'' @ substring data offset (offset + 130);
                        offset' = offset + 130;
                        preimage = (if length data > offset'
                                    then ''0x'' @ substring data offset' (offset' + 64)
                                    else ''N/A'')
                    in Inr (witnessData \<lparr> pending_htlc := Some
                              \<lparr> ph_pending_htlc_count = pendingHtlcCount, ph_htlcs = hs,
                                ph_signature = sig, ph_preimage = preimage \<rparr> \<rparr>))))"

fun parseUnlocks :: "string \<Rightarrow> nat \<Rightarrow> nat \<Rightarrow> Unlock list" where
  "parseUnlocks data offset 0 = []"
| "parseUnlocks data offset (Suc n) =
     (let unlockType = parseInt16 (substring data offset (offset + 2));
          withPreimage = parseInt16 (substring data (offset + 2) (offset + 4));
          sig = ''0x'' @ substring data (offset + 4) (offset + 134)
      in if withPreimage = Num 1 then
           \<lparr> ul_unlock_type = unlockType, ul_with_preimage = withPreimage, ul_signature = sig,
             ul_preimage = ''0x'' @ substring data (offset + 134) (offset + 198) \<rparr>
           # parseUnlocks data (offset + 198) n
         else
           \<lparr> ul_unlock_type = unlockType, ul_with_preimage = withPreimage, ul_signature = sig,
             ul_preimage = ''N/A'' \<rparr>
           # parseUnlocks data (offset + 134) n)"

definition parseWitnessV2 :: "host \<Rightarrow> string \<Rightarrow> error + ParsedWitness" where
  "parseWitnessV2 h hex =
     (let data = (if startsWith hex ''0x'' then drop 2 hex else hex);
          emptyWitnessArgs = substring data 0 32;
          unlockCount = parseInt16 (substring data 32 34);
          witnessData = (emptyWitness (''0x'' @ emptyWitnessArgs)) \<lparr> unlock_count := Some unlockCount \<rparr>
      in if unlockCount = Num 0 then
           (case BigInt (''0x'' @ substring data 34 (34 + 16)) of
              Inl e \<Rightarrow> Inl e
            | Inr ver \<Rightarrow>
                Inr (witnessData \<lparr> revocation := Some
                       \<lparr> rv_version = toString ver,
                         rv_pubkey = ''0x'' @ substring data (34 + 16) (34 + 16 + 64),
                         rv_signature = ''0x'' @ drop (34 + 16 + 64) data \<rparr> \<rparr>))
         else
           (let pendingHtlcCount = parseInt16 (substring data 34 36)
            in case parseHtlcs h data 36 (loopCount pendingHtlcCount) of
                 Inl e \<Rightarrow> Inl e
               | Inr (hs, offset) \<Rightarrow>
                   (let remoteHash = ''0x'' @ substring data offset (offset + 40)
                    in case littleEndianHexToBigInt (substring data (offset + 40) (offset + 72)) of
                         Inl e \<Rightarrow> Inl e
                       | Inr remoteAmount \<Rightarrow>
                           (let localHash = ''0x'' @ substring data (offset + 72) (offset + 112)
                            in case littleEndianHexToBigInt
                                      (substring data (offset + 112) (offset + 144)) of
                                 Inl e \<Rightarrow> Inl e
                               | Inr localAmount \<Rightarrow>
                                   Inr (witnessData \<lparr> settlement := Some
                                          \<lparr> st_pending_htlc_count = pendingHtlcCount,
                                            st_htlcs = hs,
                                            settlement_remote_pubkey_hash = remoteHash,
                                            settlement_remote_amount = toString remoteAmount,
                                            settlement_local_pubkey_hash = localHash,
                                            settlement_local_amount = toString localAmount,
                                            unlocks = parseUnlocks data (offset + 144)
                                                        (loopCount unlockCount) \<rparr> \<rparr>)))))"

section \<open>Reference readings of a byte string\<close>

text \<open>The bytes written by an even-length hexadecimal text, and the two ways of reading a
  byte sequence as an unsigned integer. These are the yardsticks the decoders are
  compared with; they are not taken from the source.\<close>

fun hexBytes :: "string \<Rightarrow> int list" where
  "hexBytes (a # b # rest) = (16 * digitVal a + digitVal b) # hexBytes rest"
| "hexBytes _ = []"

fun littleEndianValue :: "int list \<Rightarrow> int" where
  "littleEndianValue [] = 0"
| "littleEndianValue (b # bs) = b + 256 * littleEndianValue bs"

definition bigEndianValue :: "int list \<Rightarrow> int" where
  "bigEndianValue bs = foldl (\<lambda>acc b. acc * 256 + b) 0 bs"

text \<open>A host that prints a date as the number it is given, and a large number by its
  exact digits; used where a concrete host is needed.\<close>

definition plainHost :: host where
  "plainHost = \<lparr> dateZhCN = toString,
                 dateLocal = (\<lambda>n. case n of NaN \<Rightarrow> ''Invalid Date'' | Num i \<Rightarrow> toString i),
                 printDouble = toString \<rparr>"

section \<open>ChainQueryClient\<close>

text \<open>The RPC collaborator is a fixed snapshot of the ledger: three queries, each of which
  may raise (transport failure, error envelope) or answer; \<open>null\<close> is \<open>None\<close>.
  \<open>get_transactions\<close> is asked with the search key
  \<open>{script, script_type: 'lock', script_search_mode: 'exact'}\<close> and the default order and
  limit, so it is a function of the script; its answer is the list of \<open>tx_hash\<close> of the
  returned objects.\<close>

record Script =
  code_hash :: string
  hash_type :: string
  args :: string

record OutPoint =
  tx_hash :: string
  index :: string

record Input =
  previous_output :: OutPoint

record CellOutput =
  capacity :: string
  lock :: Script
  type_script :: "Script option"

record Transaction =
  inputs :: "Input list"
  outputs :: "CellOutput list"
  outputs_data :: "string list"
  witnesses :: "string list"

record TxStatus =
  block_hash :: "string option"
  status :: string

record CkbTransaction =
  transaction :: Transaction
  tx_status :: TxStatus

record CkbBlockHeader =
  hdr_number :: string
  hdr_timestamp :: string

record chain =
  get_transaction :: "string \<Rightarrow> error + CkbTransaction option"
  get_header :: "string \<Rightarrow> error + CkbBlockHeader option"
  get_transactions :: "Script \<Rightarrow> error + string list option"

text \<open>Reading an array element: out of range, and at \<open>NaN\<close>, the value is \<open>undefined\<close>.\<close>

definition nth_opt :: "'a list \<Rightarrow> nat \<Rightarrow> 'a option" where
  "nth_opt xs i = (if i < length xs then Some (xs ! i) else None)"

definition at_number :: "'a list \<Rightarrow> number \<Rightarrow> 'a option" where
  "at_number xs n = (case n of NaN \<Rightarrow> None
                     | Num i \<Rightarrow> if 0 \<le> i then nth_opt xs (nat i) else None)"

section \<open>TxMessageBuilder\<close>

definition MIN_LOCK_ARGS_HEX_LEN :: nat where
  "MIN_LOCK_ARGS_HEX_LEN = 72"

record CellInfo =
  ci_args :: string
  ci_capacity :: int
  ci_lock :: "Script option"
  udt_args :: "string option"
  udt_capacity :: "int option"

record BalanceChange =
  ckb :: string
  udt :: string

record TxMessage =
  input_cells :: "CellInfo list"
  output_cells :: "CellInfo list"
  fee :: string
  udt_fee :: string
  parsed_witness :: "ParsedWitness option"
  balance_changes :: "(string \<times> BalanceChange) list"
  block_number :: string
  block_timestamp :: string

text \<open>The body of the callback of \<open>tx.inputs.map\<close> up to the witness: the previous
  transaction is fetched, the referenced output is looked up and the cell is built.
  Reading \<open>prevOutput.lock\<close> of a missing output, or \<open>startsWith\<close> of missing output
  data, is a TypeError.\<close>

definition resolveInput :: "chain \<Rightarrow> Input \<Rightarrow> error + (CellOutput \<times> CellInfo)" where
  "resolveInput ch input =
     (let prevTxHash = tx_hash (previous_output input);
          outputIndex = parseInt16 (index (previous_output input))
      in case get_transaction ch prevTxHash of
           Inl e \<Rightarrow> Inl e
         | Inr None \<Rightarrow> Inl (Error (''Previous tx not found: '' @ prevTxHash))
         | Inr (Some prevTxData) \<Rightarrow>
             (case at_number (outputs (transaction prevTxData)) outputIndex of
                None \<Rightarrow> Inl TypeError
              | Some prevOutput \<Rightarrow>
                  (case BigInt (capacity prevOutput) of
                     Inl e \<Rightarrow> Inl e
                   | Inr cap \<Rightarrow>
                       (let cell = \<lparr> ci_args = args (lock prevOutput), ci_capacity = cap,
                                     ci_lock = Some (lock prevOutput),
                                     udt_args = None, udt_capacity = None \<rparr>
                        in case type_script prevOutput of
                             None \<Rightarrow> Inr (prevOutput, cell)
                           | Some t \<Rightarrow>
                               (case at_number (outputs_data (transaction prevTxData))
                                       outputIndex of
                                  None \<Rightarrow> Inl TypeError
                                | Some prevOutputData \<Rightarrow>
                                    (case toIntFromBigUint128Le prevOutputData of
                                       Inl e \<Rightarrow> Inl e
                                     | Inr amount \<Rightarrow>
                                         Inr (prevOutput,
                                              cell \<lparr> udt_args := Some (args t),
                                                     udt_capacity := Some amount \<rparr>)))))))"

definition errorWitness :: "error \<Rightarrow> ParsedWitness" where
  "errorWitness e = (emptyWitness []) \<lparr> pw_error := Some e \<rparr>"

text \<open>The body of the \<open>try\<close> block. \<open>witnessHex\<close> is \<open>tx.witnesses[index]\<close>, possibly
  \<open>undefined\<close>, on which either decoder raises a TypeError at \<open>hex.startsWith\<close>. The
  result \<open>Inr None\<close> says that \<open>parsedWitness\<close> was not assigned.\<close>

definition decodeWitness :: "host \<Rightarrow> string option \<Rightarrow> string \<Rightarrow> error + ParsedWitness option" where
  "decodeWitness h witnessHex lockArgs =
     (let argsData = (if startsWith lockArgs ''0x'' then drop 2 lockArgs else lockArgs)
      in if length argsData \<ge> MIN_LOCK_ARGS_HEX_LEN then
           (let versionHex = substring argsData 56 72
            in case littleEndianHexToBigInt versionHex of
                 Inl e \<Rightarrow> Inl e
               | Inr v1 \<Rightarrow>
                   (case witnessHex of
                      None \<Rightarrow> Inl TypeError
                    | Some w \<Rightarrow>
                        if v1 = 1 then map_sum id Some (parseWitness h w)
                        else map_sum id Some (parseWitnessV2 h w)))
         else Inr None)"

text \<open>The rest of the callback, for the input at position \<open>idx\<close> with resolved previous
  output \<open>prevOutput\<close>: the guard, the \<open>try\<close> and the \<open>catch\<close>. It updates the shared
  variable \<open>parsedWitness\<close>.\<close>

definition witnessStep ::
  "host \<Rightarrow> string \<Rightarrow> string list \<Rightarrow> ParsedWitness option \<Rightarrow> nat \<times> CellOutput
     \<Rightarrow> ParsedWitness option" where
  "witnessStep h commitmentCodeHash ws parsedWitness ip =
     (case ip of (idx, prevOutput) \<Rightarrow>
        if code_hash (lock prevOutput) = commitmentCodeHash \<and> parsedWitness = None then
          (case decodeWitness h (nth_opt ws idx) (args (lock prevOutput)) of
             Inl e \<Rightarrow> Some (errorWitness e)
           | Inr None \<Rightarrow> parsedWitness
           | Inr (Some w) \<Rightarrow> Some w)
        else parsedWitness)"

text \<open>The callbacks are asynchronous: each one is suspended at its \<open>getTransaction\<close> and
  resumes when that call completes. The parameter \<open>order\<close> lists input positions in the
  order of completion; positions it does not list complete afterwards, in input order.
  With \<open>order = []\<close> the inputs complete in input order.\<close>

definition completionOrder :: "nat list \<Rightarrow> nat \<Rightarrow> nat list" where
  "completionOrder order n =
     remdups (filter (\<lambda>i. i < n) order) @ filter (\<lambda>i. i \<notin> set order) [0..<n]"

fun firstFailure :: "(error + 'a) list \<Rightarrow> error option" where
  "firstFailure [] = None"
| "firstFailure (Inl e # rs) = Some e"
| "firstFailure (Inr a # rs) = firstFailure rs"

fun rights :: "(error + 'a) list \<Rightarrow> 'a list" where
  "rights [] = []"
| "rights (Inl e # rs) = rights rs"
| "rights (Inr a # rs) = a # rights rs"

fun sequence :: "(error + 'a) list \<Rightarrow> error + 'a list" where
  "sequence [] = Inr []"
| "sequence (Inl e # rs) = Inl e"
| "sequence (Inr a # rs) = (case sequence rs of Inl e \<Rightarrow> Inl e | Inr as \<Rightarrow> Inr (a # as))"

definition outputCell :: "Transaction \<Rightarrow> nat \<times> CellOutput \<Rightarrow> error + CellInfo" where
  "outputCell tx io =
     (case io of (i, output) \<Rightarrow>
        (case BigInt (capacity output) of
           Inl e \<Rightarrow> Inl e
         | Inr cap \<Rightarrow>
             (let cell = \<lparr> ci_args = args (lock output), ci_capacity = cap, ci_lock = None,
                           udt_args = None, udt_capacity = None \<rparr>
              in case type_script output of
                   None \<Rightarrow> Inr cell
                 | Some t \<Rightarrow>
                     (case nth_opt (outputs_data tx) i of
                        None \<Rightarrow> Inl TypeError
                      | Some d \<Rightarrow>
                          (case toIntFromBigUint128Le d of
                             Inl e \<Rightarrow> Inl e
                           | Inr amount \<Rightarrow>
                               Inr (cell \<lparr> udt_args := Some (args t),
                                          udt_capacity := Some amount \<rparr>))))))"

text \<open>\<open>if (c.udt_capacity)\<close> and \<open>c.udt_capacity || 0n\<close>: \<open>undefined\<close> and \<open>0n\<close> are both
  falsy.\<close>

definition udtOrZero :: "CellInfo \<Rightarrow> int" where
  "udtOrZero c = (case udt_capacity c of None \<Rightarrow> 0 | Some u \<Rightarrow> if u \<noteq> 0 then u else 0)"

text \<open>\<open>balanceMap\<close> is a plain object used as a dictionary. The model keeps its own
  properties in insertion order (an engine lists array-index keys first; nothing below
  depends on the order). A key that names a property of \<open>Object.prototype\<close> finds that
  inherited, truthy value, skips the initialisation, and the \<open>+=\<close> on its missing \<open>ckb\<close>
  adds \<open>undefined\<close> to a bigint: a TypeError.\<close>

definition objectPrototypeKeys :: "string list" where
  "objectPrototypeKeys = [''constructor'', ''__proto__'', ''hasOwnProperty'',
     ''isPrototypeOf'', ''propertyIsEnumerable'', ''toLocaleString'', ''toString'',
     ''valueOf'', ''__defineGetter__'', ''__defineSetter__'', ''__lookupGetter__'',
     ''__lookupSetter__'']"

fun addBal :: "string \<Rightarrow> int \<Rightarrow> int \<Rightarrow> (string \<times> int \<times> int) list \<Rightarrow> (string \<times> int \<times> int) list" where
  "addBal a ckbDelta udtDelta [] = [(a, 0 + ckbDelta, 0 + udtDelta)]"
| "addBal a ckbDelta udtDelta ((k, c, u) # m) =
     (if k = a then (k, c + ckbDelta, u + udtDelta) # m
      else (k, c, u) # addBal a ckbDelta udtDelta m)"

definition updateBal ::
  "(string \<times> int \<times> int) list \<Rightarrow> string \<times> int \<times> int \<Rightarrow> error + (string \<times> int \<times> int) list" where
  "updateBal balanceMap upd =
     (case upd of (a, ckbDelta, udtDelta) \<Rightarrow>
        if a \<in> set objectPrototypeKeys then Inl TypeError
        else Inr (addBal a ckbDelta udtDelta balanceMap))"

fun updateAll ::
  "(string \<times> int \<times> int) list \<Rightarrow> (string \<times> int \<times> int) list \<Rightarrow> error + (string \<times> int \<times> int) list" where
  "updateAll balanceMap [] = Inr balanceMap"
| "updateAll balanceMap (upd # upds) =
     (case updateBal balanceMap upd of
        Inl e \<Rightarrow> Inl e
      | Inr balanceMap' \<Rightarrow> updateAll balanceMap' upds)"

text \<open>\<open>Object.entries\<close> lists the own properties of an object, held here in order of
  creation: first the keys that are array indices (the canonical decimal numeral of an
  integer below \<open>2^32 - 1\<close>) in ascending numeric order, then the other keys in order of
  creation.\<close>

definition isArrayIndex :: "string \<Rightarrow> bool" where
  "isArrayIndex k = (k \<noteq> [] \<and> list_all (digitIn 10) k \<and> (hd k \<noteq> CHR ''0'' \<or> length k = 1)
                     \<and> radixValue 10 k < 4294967295)"

definition objectEntries :: "(string \<times> 'a) list \<Rightarrow> (string \<times> 'a) list" where
  "objectEntries obj =
     sort_key (\<lambda>(k, v). radixValue 10 k) (filter (\<lambda>(k, v). isArrayIndex k) obj)
     @ filter (\<lambda>(k, v). \<not> isArrayIndex k) obj"

text \<open>The loop that fills \<open>balance_changes\<close>. The keys are created in the order of
  \<open>Object.entries(balanceMap)\<close>, which is also the order in which the new object lists
  them.\<close>

definition balanceChanges :: "(string \<times> int \<times> int) list \<Rightarrow> (string \<times> BalanceChange) list" where
  "balanceChanges balanceMap =
     map (\<lambda>(a, c, u). (a, \<lparr> ckb = toString c, udt = toString u \<rparr>))
         (filter (\<lambda>(a, c, u). c \<noteq> 0 \<or> u \<noteq> 0) (objectEntries balanceMap))"

text \<open>Block metadata: any failure of the header query is swallowed. The block number is
  printed from the number that \<open>parseInt\<close> returns.\<close>

definition blockMeta :: "host \<Rightarrow> chain \<Rightarrow> CkbTransaction \<Rightarrow> string \<times> string" where
  "blockMeta h ch txData =
     (case block_hash (tx_status txData) of
        None \<Rightarrow> (''Pending'', [])
      | Some bh \<Rightarrow>
          if bh = [] then (''Pending'', [])
          else (case get_header ch bh of
                  Inl e \<Rightarrow> (''Pending'', [])
                | Inr None \<Rightarrow> (''Pending'', [])
                | Inr (Some header) \<Rightarrow>
                    (numberToString h (parseInt16 (hdr_number header)),
                     dateLocal h (parseInt16 (hdr_timestamp header)))))"

definition getTxMessage ::
  "host \<Rightarrow> chain \<Rightarrow> nat list \<Rightarrow> string \<Rightarrow> string \<Rightarrow> error + TxMessage" where
  "getTxMessage h ch order commitmentCodeHash txHash =
     (case get_transaction ch txHash of
        Inl e \<Rightarrow> Inl e
      | Inr None \<Rightarrow> Inl (Error (''Transaction not found: '' @ txHash))
      | Inr (Some txData) \<Rightarrow>
          (let tx = transaction txData;
               resolved = map (resolveInput ch) (inputs tx);
               sched = completionOrder order (length resolved)
           in case firstFailure (map (\<lambda>i. resolved ! i) sched) of
                Some e \<Rightarrow> Inl e
              | None \<Rightarrow>
                  (let prev = rights resolved;
                       parsedWitness =
                         foldl (witnessStep h commitmentCodeHash (witnesses tx)) None
                               (map (\<lambda>i. (i, fst (prev ! i))) sched);
                       inputCells = map snd prev
                   in case sequence (map (outputCell tx) (enumerate 0 (outputs tx))) of
                        Inl e \<Rightarrow> Inl e
                      | Inr outputCells \<Rightarrow>
                          (let inputCap = foldl (\<lambda>acc c. acc + ci_capacity c) 0 inputCells;
                               outputCap = foldl (\<lambda>acc c. acc + ci_capacity c) 0 outputCells;
                               fee = inputCap - outputCap;
                               udtIn = foldl (\<lambda>acc c. acc + udtOrZero c) 0 inputCells;
                               udtFee = foldl (\<lambda>acc c. acc - udtOrZero c) udtIn outputCells
                           in case updateAll []
                                     (map (\<lambda>c. (ci_args c, - ci_capacity c, - udtOrZero c))
                                          inputCells
                                      @ map (\<lambda>c. (ci_args c, ci_capacity c, udtOrZero c))
                                          outputCells) of
                                Inl e \<Rightarrow> Inl e
                              | Inr balanceMap \<Rightarrow>
                                  Inr \<lparr> input_cells = inputCells,
                                        output_cells = outputCells,
                                        fee = toString fee,
                                        udt_fee = toString udtFee,
                                        parsed_witness = parsedWitness,
                                        balance_changes = balanceChanges balanceMap,
                                        block_number = fst (blockMeta h ch txData),
                                        block_timestamp = snd (blockMeta h ch txData) \<rparr>))))"

text \<open>The integer written by a decimal numeral with an optional minus sign: the reading
  of the strings that \<open>toString\<close> prints. A yardstick, not taken from the source.\<close>

definition decimalValue :: "string \<Rightarrow> int" where
  "decimalValue s = (if s \<noteq> [] \<and> hd s = CHR ''-'' then - radixValue 10 (tl s)
                     else radixValue 10 s)"

section \<open>A small ledger\<close>

text \<open>A five-transaction ledger for concrete runs. \<open>0x01\<close> opens a channel: its first
  output holds 1000 shannons under the commitment lock, whose args carry the version
  bytes \<open>01 00 00 00 00 00 00 00\<close>; its second output holds 100 shannons under the same
  code hash with version bytes \<open>02 00 00 00 00 00 00 00\<close>. \<open>0x02\<close>, \<open>0x03\<close> and \<open>0x04\<close>
  each spend the first output: \<open>0x02\<close> pays 990 and carries a revocation witness,
  \<open>0x03\<close> pays 990 and carries a witness that stops after the discriminator \<open>ff\<close>,
  \<open>0x04\<close> pays 1010 and carries no witness. \<open>0x05\<close> spends both outputs and carries
  one revocation witness for each. The indexer knows \<open>0x01\<close> and \<open>0x02\<close> under the
  commitment lock and \<open>0x02\<close> alone under the payee's lock.\<close>

definition commitmentHash :: string where
  "commitmentHash = ''0xc0''"

definition channelLock :: Script where
  "channelLock = \<lparr> code_hash = commitmentHash, hash_type = ''type'',
     args = ''0x000000000000000000000000000000000000000000000000000000000100000000000000'' \<rparr>"

definition payeeLock :: Script where
  "payeeLock = \<lparr> code_hash = ''0x9b'', hash_type = ''type'', args = ''0xb0b0'' \<rparr>"

definition channelLock2 :: Script where
  "channelLock2 = \<lparr> code_hash = commitmentHash, hash_type = ''type'',
     args = ''0x000000000000000000000000000000000000000000000000000000000200000000000000'' \<rparr>"

definition spendOpen :: "Input" where
  "spendOpen = \<lparr> previous_output = \<lparr> tx_hash = ''0x01'', index = ''0x0'' \<rparr> \<rparr>"

definition spendOpen2 :: "Input" where
  "spendOpen2 = \<lparr> previous_output = \<lparr> tx_hash = ''0x01'', index = ''0x1'' \<rparr> \<rparr>"

definition openOutput :: CellOutput where
  "openOutput = \<lparr> capacity = ''0x3e8'', lock = channelLock, type_script = None \<rparr>"

definition openOutput2 :: CellOutput where
  "openOutput2 = \<lparr> capacity = ''0x64'', lock = channelLock2, type_script = None \<rparr>"

definition openTx :: CkbTransaction where
  "openTx = \<lparr> transaction = \<lparr> inputs = [],
       outputs = [openOutput, openOutput2],
       outputs_data = [''0x'', ''0x''], witnesses = [] \<rparr>,
     tx_status = \<lparr> block_hash = None, status = ''pending'' \<rparr> \<rparr>"

definition closeTx :: CkbTransaction where
  "closeTx = \<lparr> transaction = \<lparr> inputs = [spendOpen],
       outputs = [\<lparr> capacity = ''0x3de'', lock = payeeLock, type_script = None \<rparr>],
       outputs_data = [''0x''],
       witnesses = [''0x00000000000000000000000000000000ff0000000000000001aabb''] \<rparr>,
     tx_status = \<lparr> block_hash = None, status = ''pending'' \<rparr> \<rparr>"

definition truncatedTx :: CkbTransaction where
  "truncatedTx = \<lparr> transaction = \<lparr> inputs = [spendOpen],
       outputs = [\<lparr> capacity = ''0x3de'', lock = payeeLock, type_script = None \<rparr>],
       outputs_data = [''0x''],
       witnesses = [''0x00000000000000000000000000000000ff''] \<rparr>,
     tx_status = \<lparr> block_hash = None, status = ''pending'' \<rparr> \<rparr>"

definition overpayTx :: CkbTransaction where
  "overpayTx = \<lparr> transaction = \<lparr> inputs = [spendOpen],
       outputs = [\<lparr> capacity = ''0x3f2'', lock = payeeLock, type_script = None \<rparr>],
       outputs_data = [''0x''], witnesses = [] \<rparr>,
     tx_status = \<lparr> block_hash = None, status = ''pending'' \<rparr> \<rparr>"

definition jointTx :: CkbTransaction where
  "jointTx = \<lparr> transaction = \<lparr> inputs = [spendOpen, spendOpen2],
       outputs = [\<lparr> capacity = ''0x442'', lock = payeeLock, type_script = None \<rparr>],
       outputs_data = [''0x''],
       witnesses = [''0x00000000000000000000000000000000ff0000000000000001aabb'',
                    ''0x11111111111111111111111111111111000000000000000002ccdd''] \<rparr>,
     tx_status = \<lparr> block_hash = None, status = ''pending'' \<rparr> \<rparr>"

definition ledgerTransaction :: "string \<Rightarrow> error + CkbTransaction option" where
  "ledgerTransaction txHash =
     (if txHash = ''0x01'' then Inr (Some openTx)
      else if txHash = ''0x02'' then Inr (Some closeTx)
      else if txHash = ''0x03'' then Inr (Some truncatedTx)
      else if txHash = ''0x04'' then Inr (Some overpayTx)
      else if txHash = ''0x05'' then Inr (Some jointTx)
      else Inr None)"

definition ledgerHeader :: "string \<Rightarrow> error + CkbBlockHeader option" where
  "ledgerHeader blockHash = Inr None"

definition ledgerTransactions :: "Script \<Rightarrow> error + string list option" where
  "ledgerTransactions s =
     (if s = channelLock then Inr (Some [''0x01'', ''0x02''])
      else if s = payeeLock then Inr (Some [''0x02''])
      else Inr (Some []))"

definition ledger :: chain where
  "ledger = \<lparr> get_transaction = ledgerTransaction, get_header = ledgerHeader,
               get_transactions = ledgerTransactions \<rparr>"

text \<open>The error variant of a parsed witness, as specified: \<open>empty_witness_args\<close>
  empty, the error recorded, nothing else.\<close>

definition errorVariant :: "error \<Rightarrow> ParsedWitness" where
  "errorVariant e = \<lparr> empty_witness_args = [], unlock_type = None, unlock_count = None,
                      revocation = None, non_pending_htlc = None, pending_htlc = None,
                      settlement = None, pw_error = Some e \<rparr>"

text \<open>The messages that the builder is expected to return for \<open>0x02\<close> and \<open>0x04\<close>, and
  the two revocation witnesses of \<open>0x05\<close> as decoded, all written out field by field.\<close>

definition channelCell :: CellInfo where
  "channelCell = \<lparr> ci_args = args channelLock, ci_capacity = 1000,
     ci_lock = Some channelLock, udt_args = None, udt_capacity = None \<rparr>"

definition closeMsg :: TxMessage where
  "closeMsg = \<lparr> input_cells = [channelCell],
     output_cells = [\<lparr> ci_args = ''0xb0b0'', ci_capacity = 990, ci_lock = None,
                       udt_args = None, udt_capacity = None \<rparr>],
     fee = ''10'', udt_fee = ''0'',
     parsed_witness = Some \<lparr> empty_witness_args = ''0x00000000000000000000000000000000'',
        unlock_type = Some (Num 255), unlock_count = None,
        revocation = Some \<lparr> rv_version = ''1'', rv_pubkey = ''0xaabb'',
                               rv_signature = ''0x'' \<rparr>,
        non_pending_htlc = None, pending_htlc = None, settlement = None, pw_error = None \<rparr>,
     balance_changes = [(args channelLock, \<lparr> ckb = ''-1000'', udt = ''0'' \<rparr>),
                        (''0xb0b0'', \<lparr> ckb = ''990'', udt = ''0'' \<rparr>)],
     block_number = ''Pending'', block_timestamp = [] \<rparr>"

definition overpayMsg :: TxMessage where
  "overpayMsg = \<lparr> input_cells = [channelCell],
     output_cells = [\<lparr> ci_args = ''0xb0b0'', ci_capacity = 1010, ci_lock = None,
                       udt_args = None, udt_capacity = None \<rparr>],
     fee = ''-10'', udt_fee = ''0'',
     parsed_witness = Some (errorVariant TypeError),
     balance_changes = [(args channelLock, \<lparr> ckb = ''-1000'', udt = ''0'' \<rparr>),
                        (''0xb0b0'', \<lparr> ckb = ''1010'', udt = ''0'' \<rparr>)],
     block_number = ''Pending'', block_timestamp = [] \<rparr>"






section \<open>The witness selection rule, as specified\<close>


section \<open>ChannelDeathTracer\<close>

record DeathResult =
  dr_txHash :: "string option"
  dr_codeHash :: "string option"

text \<open>Reading \<open>outputs[0].lock\<close> of a transaction without outputs is a TypeError. The
  optional chain \<open>txs?.objects?.length\<close> is \<open>undefined\<close> on a missing answer.\<close>

definition getLnCellDeathHash :: "chain \<Rightarrow> string \<Rightarrow> error + DeathResult" where
  "getLnCellDeathHash ch txHash =
     (case get_transaction ch txHash of
        Inl e \<Rightarrow> Inl e
      | Inr None \<Rightarrow> Inr \<lparr> dr_txHash = None, dr_codeHash = None \<rparr>
      | Inr (Some txData) \<Rightarrow>
          (case outputs (transaction txData) of
             [] \<Rightarrow> Inl TypeError
           | output0 # rest \<Rightarrow>
               (let cellLock = lock output0
                in case get_transactions ch cellLock of
                     Inl e \<Rightarrow> Inl e
                   | Inr None \<Rightarrow> Inr \<lparr> dr_txHash = None, dr_codeHash = None \<rparr>
                   | Inr (Some objects) \<Rightarrow>
                       if length objects = 2
                       then Inr \<lparr> dr_txHash = Some (objects ! 1),
                                  dr_codeHash = Some (code_hash cellLock) \<rparr>
                       else Inr \<lparr> dr_txHash = None, dr_codeHash = None \<rparr>)))"

record TraceItem =
  ti_tx_hash :: string
  msg :: TxMessage

text \<open>The \<open>while (currentTx)\<close> loop of \<open>getLnTxTrace\<close>. It has no iteration bound, so it
  is a partial function: \<open>None\<close> stands for a walk that never ends. \<open>order\<close> gives the
  completion order of the inputs of each transaction built. An empty string is falsy in
  \<open>while (currentTx)\<close> and in \<open>!result.txHash\<close>. The progress callback \<open>onStep\<close> is optional
  and left out.\<close>

partial_function (option) traceLoop ::
  "host \<Rightarrow> chain \<Rightarrow> (string \<Rightarrow> nat list) \<Rightarrow> string \<Rightarrow> string \<Rightarrow> TraceItem list
     \<Rightarrow> (error + TraceItem list) option" where
  "traceLoop h ch order commitmentCodeHash currentTx txTrace =
     (if currentTx = [] then Some (Inr txTrace)
      else case getLnCellDeathHash ch currentTx of
             Inl e \<Rightarrow> Some (Inl e)
           | Inr result \<Rightarrow>
               (case dr_txHash result of
                  None \<Rightarrow> Some (Inr txTrace)
                | Some next \<Rightarrow>
                    if next = [] then Some (Inr txTrace)
                    else (case getTxMessage h ch (order next) commitmentCodeHash next of
                            Inl e \<Rightarrow> Some (Inl e)
                          | Inr newMsg \<Rightarrow>
                              (let txTrace' = txTrace @ [\<lparr> ti_tx_hash = next, msg = newMsg \<rparr>]
                               in if dr_codeHash result \<noteq> Some commitmentCodeHash
                                  then Some (Inr txTrace')
                                  else traceLoop h ch order commitmentCodeHash next txTrace'))))"

declare traceLoop.simps [code]

definition getLnTxTrace ::
  "host \<Rightarrow> chain \<Rightarrow> (string \<Rightarrow> nat list) \<Rightarrow> string \<Rightarrow> string
     \<Rightarrow> (error + TraceItem list) option" where
  "getLnTxTrace h ch order commitmentCodeHash openChannelTxHash =
     (case getTxMessage h ch (order openChannelTxHash) commitmentCodeHash openChannelTxHash of
        Inl e \<Rightarrow> Some (Inl e)
      | Inr openMsg \<Rightarrow>
          (let txTrace = [\<lparr> ti_tx_hash = openChannelTxHash, msg = openMsg \<rparr>]
           in case getLnCellDeathHash ch openChannelTxHash of
                Inl e \<Rightarrow> Some (Inl e)
              | Inr result \<Rightarrow>
                  (case dr_txHash result of
                     None \<Rightarrow> Some (Inr txTrace)
                   | Some nextTx \<Rightarrow>
                       if nextTx = [] then Some (Inr txTrace)
                       else (case getTxMessage h ch (order nextTx) commitmentCodeHash nextTx of
                               Inl e \<Rightarrow> Some (Inl e)
                             | Inr nextMsg \<Rightarrow>
                                 traceLoop h ch order commitmentCodeHash nextTx
                                   (txTrace @ [\<lparr> ti_tx_hash = nextTx, msg = nextMsg \<rparr>])))))"

section \<open>BalanceAggregator\<close>

datatype CkbNetwork = testnet | mainnet | custom

record LiveCell =
  lc_capacity :: string
  lc_lock :: Script
  lc_type :: "Script option"
  lc_data :: string
  lc_out_point :: OutPoint

record UdtCfgInfo =
  cfg_name :: string
  cfg_script :: Script

record UdtBalance =
  ub_name :: string
  typeScript :: Script
  balance :: int
  cellCount :: nat

record AccountBalance =
  ckbBalance :: int
  ckbCellCount :: nat
  udtBalances :: "UdtBalance list"
  cells :: "LiveCell list"
  network :: CkbNetwork

text \<open>\<open>toLowerCase\<close> on code units below 256: the letters \<open>A\<close> to \<open>Z\<close> and the Latin-1
  capitals \<open>0xC0\<close> to \<open>0xDE\<close> (without the multiplication sign \<open>0xD7\<close>) move up by 32,
  which sets bit 5.\<close>

definition toLowerCaseChar :: "char \<Rightarrow> char" where
  "toLowerCaseChar c =
     (let n = (of_char c :: int)
      in if (65 \<le> n \<and> n \<le> 90) \<or> (192 \<le> n \<and> n \<le> 222 \<and> n \<noteq> 215)
         then (case c of Char b0 b1 b2 b3 b4 b5 b6 b7 \<Rightarrow> Char b0 b1 b2 b3 b4 True b6 b7)
         else c)"

definition toLowerCase :: "string \<Rightarrow> string" where
  "toLowerCase s = map toLowerCaseChar s"

definition scriptEquals :: "Script \<Rightarrow> Script \<Rightarrow> bool" where
  "scriptEquals a b =
     (toLowerCase (code_hash a) = toLowerCase (code_hash b)
      \<and> hash_type a = hash_type b
      \<and> toLowerCase (args a) = toLowerCase (args b))"

text \<open>\<open>udtCfgInfos.find((u) => scriptEquals(u.script, cell.type))\<close> and the key
  \<open>`${code_hash}:${args}`\<close> of the matched script.\<close>

definition findUdt :: "UdtCfgInfo list \<Rightarrow> Script \<Rightarrow> UdtCfgInfo option" where
  "findUdt udtCfgInfos t = List.find (\<lambda>u. scriptEquals (cfg_script u) t) udtCfgInfos"

definition udtKey :: "Script \<Rightarrow> string" where
  "udtKey s = code_hash s @ '':'' @ args s"

definition cellAmount :: "LiveCell \<Rightarrow> error + int" where
  "cellAmount cell =
     (let dataHex = (if startsWith (lc_data cell) ''0x'' then drop 2 (lc_data cell)
                     else lc_data cell)
      in if length dataHex \<ge> 32 then toIntFromBigUint128Le (''0x'' @ substring dataHex 0 32)
         else Inr 0)"

text \<open>\<open>udtMap\<close> is a \<open>Map\<close>: its entries stay in insertion order and an existing entry
  is updated in place.\<close>

fun udtAccumulate ::
  "string \<Rightarrow> UdtCfgInfo \<Rightarrow> int \<Rightarrow> (string \<times> UdtBalance) list \<Rightarrow> (string \<times> UdtBalance) list" where
  "udtAccumulate key matchedUdt amount [] =
     [(key, \<lparr> ub_name = cfg_name matchedUdt, typeScript = cfg_script matchedUdt,
              balance = amount, cellCount = 1 \<rparr>)]"
| "udtAccumulate key matchedUdt amount ((k, existing) # m) =
     (if k = key
      then (k, existing \<lparr> balance := balance existing + amount,
                         cellCount := cellCount existing + 1 \<rparr>) # m
      else (k, existing) # udtAccumulate key matchedUdt amount m)"

fun balanceLoop ::
  "UdtCfgInfo list \<Rightarrow> LiveCell list \<Rightarrow> int \<times> nat \<times> (string \<times> UdtBalance) list
     \<Rightarrow> error + (int \<times> nat \<times> (string \<times> UdtBalance) list)" where
  "balanceLoop udtCfgInfos [] st = Inr st"
| "balanceLoop udtCfgInfos (cell # rest) (ckbBal, ckbCount, udtMap) =
     (case lc_type cell of
        None \<Rightarrow>
          (case BigInt (lc_capacity cell) of
             Inl e \<Rightarrow> Inl e
           | Inr cap \<Rightarrow> balanceLoop udtCfgInfos rest (ckbBal + cap, ckbCount + 1, udtMap))
      | Some t \<Rightarrow>
          (case findUdt udtCfgInfos t of
             Some matchedUdt \<Rightarrow>
               (let key = udtKey (cfg_script matchedUdt)
                in case cellAmount cell of
                     Inl e \<Rightarrow> Inl e
                   | Inr amount \<Rightarrow>
                       balanceLoop udtCfgInfos rest
                         (ckbBal, ckbCount, udtAccumulate key matchedUdt amount udtMap))
           | None \<Rightarrow>
               (case BigInt (lc_capacity cell) of
                  Inl e \<Rightarrow> Inl e
                | Inr cap \<Rightarrow>
                    balanceLoop udtCfgInfos rest (ckbBal + cap, ckbCount + 1, udtMap))))"

definition computeAccountBalance ::
  "LiveCell list \<Rightarrow> UdtCfgInfo list \<Rightarrow> CkbNetwork \<Rightarrow> error + AccountBalance" where
  "computeAccountBalance cellList udtCfgInfos net =
     (case balanceLoop udtCfgInfos cellList (0, 0, []) of
        Inl e \<Rightarrow> Inl e
      | Inr (ckbBal, ckbCount, udtMap) \<Rightarrow>
          Inr \<lparr> ckbBalance = ckbBal, ckbCellCount = ckbCount,
                udtBalances = map snd udtMap, cells = cellList, network = net \<rparr>)"

text \<open>How a cell is classified, and the numbers it contributes where they can be read;
  used to state what the aggregator computes.\<close>

definition matchedUdt :: "UdtCfgInfo list \<Rightarrow> LiveCell \<Rightarrow> UdtCfgInfo option" where
  "matchedUdt udtCfgInfos cell =
     (case lc_type cell of None \<Rightarrow> None | Some t \<Rightarrow> findUdt udtCfgInfos t)"

definition capacityOf :: "LiveCell \<Rightarrow> int" where
  "capacityOf cell = (case BigInt (lc_capacity cell) of Inl e \<Rightarrow> 0 | Inr cap \<Rightarrow> cap)"

definition amountOf :: "LiveCell \<Rightarrow> int" where
  "amountOf cell = (case cellAmount cell of Inl e \<Rightarrow> 0 | Inr amount \<Rightarrow> amount)"

text \<open>Two registered scripts that differ in \<open>hash_type\<close> only, and one cell of each.\<close>

definition udtA :: UdtCfgInfo where
  "udtA = \<lparr> cfg_name = ''A'',
            cfg_script = \<lparr> code_hash = ''0xaa'', hash_type = ''type'', args = ''0x'' \<rparr> \<rparr>"

definition udtB :: UdtCfgInfo where
  "udtB = \<lparr> cfg_name = ''B'',
            cfg_script = \<lparr> code_hash = ''0xaa'', hash_type = ''data1'', args = ''0x'' \<rparr> \<rparr>"

definition cellOfA :: LiveCell where
  "cellOfA = \<lparr> lc_capacity = ''0x64'', lc_lock = payeeLock,
               lc_type = Some (cfg_script udtA),
               lc_data = ''0x05000000000000000000000000000000'',
               lc_out_point = \<lparr> tx_hash = ''0x0a'', index = ''0x0'' \<rparr> \<rparr>"

definition cellOfB :: LiveCell where
  "cellOfB = \<lparr> lc_capacity = ''0x64'', lc_lock = payeeLock,
               lc_type = Some (cfg_script udtB),
               lc_data = ''0x07000000000000000000000000000000'',
               lc_out_point = \<lparr> tx_hash = ''0x0b'', index = ''0x0'' \<rparr> \<rparr>"

definition plainCell :: LiveCell where
  "plainCell = \<lparr> lc_capacity = ''0x1f4'', lc_lock = payeeLock, lc_type = None,
                 lc_data = ''0x'',
                 lc_out_point = \<lparr> tx_hash = ''0x0c'', index = ''0x0'' \<rparr> \<rparr>"

definition udt42Cell :: LiveCell where
  "udt42Cell = \<lparr> lc_capacity = ''0x64'', lc_lock = payeeLock,
               lc_type = Some \<lparr> code_hash = ''0xAA'', hash_type = ''type'', args = ''0x'' \<rparr>,
               lc_data = ''0x2a000000000000000000000000000000'',
               lc_out_point = \<lparr> tx_hash = ''0x0d'', index = ''0x0'' \<rparr> \<rparr>"

text \<open>For a key \<open>k\<close> of \<open>udtMap\<close>: the cells that are accumulated under \<open>k\<close>, each with the
  registered UDT it matched and its amount; and the entry that accumulating them leaves
  under \<open>k\<close>, given the entry \<open>old\<close> that was there before.\<close>

definition contributions :: "UdtCfgInfo list \<Rightarrow> string \<Rightarrow> LiveCell list \<Rightarrow> (UdtCfgInfo \<times> int) list" where
  "contributions udtCfgInfos k cellList =
     List.map_filter
       (\<lambda>cell. case matchedUdt udtCfgInfos cell of
                 None \<Rightarrow> None
               | Some u \<Rightarrow> if udtKey (cfg_script u) = k then Some (u, amountOf cell) else None)
       cellList"

definition accumulated :: "UdtBalance option \<Rightarrow> (UdtCfgInfo \<times> int) list \<Rightarrow> UdtBalance option" where
  "accumulated old cs =
     (case old of
        Some e \<Rightarrow> Some (e \<lparr> balance := balance e + sum_list (map snd cs),
                             cellCount := cellCount e + length cs \<rparr>)
      | None \<Rightarrow>
          (case cs of
             [] \<Rightarrow> None
           | (u, a) # rest \<Rightarrow>
               Some \<lparr> ub_name = cfg_name u, typeScript = cfg_script u,
                      balance = sum_list (map snd cs), cellCount = length cs \<rparr>))"

text \<open>The result expected for one plain cell of capacity 500 and one cell of the
  registered UDT \<open>A\<close> holding the amount 42.\<close>

definition sampleBalance :: AccountBalance where
  "sampleBalance = \<lparr> ckbBalance = 500, ckbCellCount = 1,
     udtBalances = [\<lparr> ub_name = ''A'', typeScript = cfg_script udtA, balance = 42,
                      cellCount = 1 \<rparr>],
     cells = [plainCell, udt42Cell], network = testnet \<rparr>"

section \<open>Properties of the primitives\<close>

lemma trimEnd_id: "s = [] \<or> \<not> isStrWhiteSpace (last s) \<Longrightarrow> trimEnd s = s"
  by (cases s rule: rev_cases) (auto simp: trimEnd_def)

lemma hex_not_ws: "digitIn 16 c \<Longrightarrow> \<not> isStrWhiteSpace c"
  by (auto simp: digitIn_def hexDigit_def isStrWhiteSpace_def Let_def split: if_splits option.splits)

lemma isHex_last: "isHex s \<Longrightarrow> s \<noteq> [] \<Longrightarrow> digitIn 16 (last s)"
  by (simp add: isHex_def list_all_iff)

lemma BigInt_0x_empty: "BigInt ''0x'' = Inl SyntaxError"
  by (simp add: BigInt_def trim_def trimEnd_def isStrWhiteSpace_def parseDigits_def)

lemma BigInt_0x: assumes "s \<noteq> []" "isHex s" shows "BigInt (CHR ''0'' # CHR ''x'' # s) = Inr (radixValue 16 s)"
proof -
  have "\<not> isStrWhiteSpace (last (''0x'' @ s))"
    using assms by (simp add: hex_not_ws isHex_last)
  then have "trimEnd (''0x'' @ s) = ''0x'' @ s"
    by (intro trimEnd_id) simp
  then have "trim (''0x'' @ s) = ''0x'' @ s"
    by (simp add: trim_def isStrWhiteSpace_def)
  then show ?thesis using assms
    by (simp add: BigInt_def parseDigits_def isHex_def)
qed

lemma set_concat_rev_byteChunks: "set (concat (rev (byteChunks s))) = set s"
  by (induction s rule: byteChunks.induct) auto

lemma concat_rev_byteChunks_Nil: "concat (rev (byteChunks s)) = [] \<longleftrightarrow> s = []"
  by (induction s rule: byteChunks.induct) auto

lemma isHex_concat_rev_byteChunks: "isHex (concat (rev (byteChunks s))) = isHex s"
  by (simp only: isHex_def list_all_iff set_concat_rev_byteChunks)

lemma radixValue_snoc2: "radixValue 16 (s @ [a, b]) = radixValue 16 s * 256 + (16 * digitVal a + digitVal b)"
  by (simp add: radixValue_def)

lemma radixValue_le: "even (length s) \<Longrightarrow> radixValue 16 (concat (rev (byteChunks s))) = littleEndianValue (hexBytes s)"
proof (induction s rule: byteChunks.induct)
  case 1 then show ?case by (simp add: radixValue_def)
next
  case (2 a) then show ?case by simp
next
  case (3 a b rest)
  then show ?case by (simp add: radixValue_snoc2)
qed

lemma foldl_be: "foldl (\<lambda>acc c. acc * 16 + digitVal c) acc s = foldl (\<lambda>acc b. acc * 256 + b) acc (hexBytes s)" if "even (length s)"
  using that by (induction s arbitrary: acc rule: hexBytes.induct) (auto simp: algebra_simps)

lemma radixValue_be: "even (length s) \<Longrightarrow> radixValue 16 s = bigEndianValue (hexBytes s)"
  by (simp add: radixValue_def bigEndianValue_def foldl_be)

lemma littleEndianHexToBigInt_empty: "littleEndianHexToBigInt [] = Inl SyntaxError"
  by (simp add: littleEndianHexToBigInt_def BigInt_0x_empty)

lemma littleEndianHexToBigInt_even: "s \<noteq> [] \<Longrightarrow> isHex s \<Longrightarrow> even (length s) \<Longrightarrow> littleEndianHexToBigInt s = Inr (littleEndianValue (hexBytes s))"
proof -
  assume a: "s \<noteq> []" "isHex s" "even (length s)"
  have "concat (rev (byteChunks s)) \<noteq> []"
    using a(1) concat_rev_byteChunks_Nil [of s] by (simp only:) simp
  moreover have "isHex (concat (rev (byteChunks s)))"
    using a(2) by (simp only: isHex_concat_rev_byteChunks)
  ultimately have "BigInt (CHR ''0'' # CHR ''x'' # concat (rev (byteChunks s)))
      = Inr (radixValue 16 (concat (rev (byteChunks s))))"
    by (rule BigInt_0x)
  with a(3) show ?thesis
    by (simp add: littleEndianHexToBigInt_def radixValue_le)
qed

lemma isHex_Cons0: "isHex (CHR ''0'' # s) = isHex s"
  by (simp add: isHex_def digitIn_def hexDigit_def)

lemma littleEndianHexToBigInt_hex: "s \<noteq> [] \<Longrightarrow> isHex s \<Longrightarrow>
  littleEndianHexToBigInt s = Inr (littleEndianValue (hexBytes (if odd (length s) then CHR ''0'' # s else s)))"
proof (cases "odd (length s)")
  case True
  assume "s \<noteq> []" "isHex s"
  with True littleEndianHexToBigInt_even [of "CHR ''0'' # s"] show ?thesis
    by (simp add: isHex_Cons0 littleEndianHexToBigInt_def odd_iff_mod_2_eq_one)
next
  case False
  assume "s \<noteq> []" "isHex s"
  with False littleEndianHexToBigInt_even [of s] show ?thesis by simp
qed

lemma and_mask_take_bit: "(a::int) AND (push_bit n 1 - 1) = take_bit n a"
  by (simp add: take_bit_eq_mask mask_eq_exp_minus_1 push_bit_eq_mult)

lemma epoch_recompose: "take_bit 24 v + push_bit 24 (take_bit 16 (drop_bit 24 v)) + push_bit 40 (take_bit 16 (drop_bit 40 v)) = take_bit 56 (v::int)"
proof -
  have a: "take_bit 56 v = take_bit 24 v + push_bit 24 (take_bit 32 (drop_bit 24 v))"
    using bits_ident [of 24 "take_bit 56 v"] by (simp add: drop_bit_take_bit)
  have b: "take_bit 32 (drop_bit 24 v) = take_bit 16 (drop_bit 24 v) + push_bit 16 (take_bit 16 (drop_bit 40 v))"
    using bits_ident [of 16 "take_bit 32 (drop_bit 24 v)"] by (simp add: drop_bit_take_bit add.commute)
  show ?thesis unfolding a b by (simp add: push_bit_add)
qed

lemma isHex_take: "isHex s \<Longrightarrow> isHex (take n s)"
  by (auto simp: isHex_def list_all_iff dest: in_set_takeD)

lemma isHex_drop: "isHex s \<Longrightarrow> isHex (drop n s)"
  by (auto simp: isHex_def list_all_iff dest: in_set_dropD)

lemma substring_le: "a \<le> b \<Longrightarrow> substring s a b = take (b - a) (drop a s)"
  by (simp add: substring_def)

lemmas eval_prims = startsWith_def substring_def strip0x_def trim_def trimEnd_def
  isStrWhiteSpace_def hexDigit_def digitIn_def digitVal_def radixValue_def isHex_def
  parseDigits_def BigInt_def parseInt16_def digitChar_def toString_def numberToString_def
  littleEndianHexToBigInt_def toIntFromBigUint128Le_def bigEndianValue_def Let_def

section \<open>IntegerCodec: epoch unpacking\<close>

text \<open>
  Claim C9. For every 64-bit value \<open>v\<close> (indeed for every integer), \<open>parseEpoch v\<close>
  returns \<open>number\<close> = bits [0,24) of \<open>v\<close>, \<open>index\<close> = bits [24,40) and \<open>length\<close> =
  bits [40,56), each printed in decimal, and
  \<open>number + (index << 24) + (length << 40) = v mod 2^56\<close>: the bits from 56 upwards
  are dropped.
\<close>

theorem parseEpoch_fields:
  "parseEpoch v = \<lparr> ep_number = toString (take_bit 24 v),
                    ep_index = toString (take_bit 16 (drop_bit 24 v)),
                    ep_length = toString (take_bit 16 (drop_bit 40 v)),
                    ep_value = toString v \<rparr>
   \<and> take_bit 24 v + push_bit 24 (take_bit 16 (drop_bit 24 v))
       + push_bit 40 (take_bit 16 (drop_bit 40 v)) = v mod 2 ^ 56"
proof
  show "parseEpoch v = \<lparr> ep_number = toString (take_bit 24 v),
                    ep_index = toString (take_bit 16 (drop_bit 24 v)),
                    ep_length = toString (take_bit 16 (drop_bit 40 v)),
                    ep_value = toString v \<rparr>"
    unfolding parseEpoch_def Let_def and_mask_take_bit by simp
  have "take_bit 56 v = v mod 2 ^ 56"
    by (rule take_bit_eq_mod)
  with epoch_recompose [of v]
  show "take_bit 24 v + push_bit 24 (take_bit 16 (drop_bit 24 v))
       + push_bit 40 (take_bit 16 (drop_bit 40 v)) = v mod 2 ^ 56"
    by (simp only:)
qed

section \<open>LockArgsCodec: the version field of the second layout\<close>

text \<open>
  Claim C1, as stated: \<open>parseLockArgsV2\<close> reads the 8-byte version field (hexadecimal
  characters 56 to 72) as a little-endian u64. It does not: the field is handed to
  \<open>BigInt('0x' + versionHex)\<close>, which reads the digits as one hexadecimal numeral, most
  significant byte first. On the lock args with version bytes \<open>01 00 00 00 00 00 00 00\<close>
  the decoder returns \<open>72057594037927936\<close> (that is \<open>2^56\<close>), while the little-endian
  reading of those bytes is \<open>1\<close>.
\<close>

theorem parseLockArgsV2_version_not_little_endian:
  "parseLockArgsV2 ''000000000000000000000000000000000000000000000000000000000100000000000000''
     = Inr \<lparr> pubkey_hash = ''0x0000000000000000000000000000000000000000'',
             delay_epoch = \<lparr> ep_number = ''0'', ep_index = ''0'', ep_length = ''0'',
                             ep_value = ''0'' \<rparr>,
             version = ''72057594037927936'',
             htlcs = None, settlement_hash = Some [], settlement_flag = None \<rparr>
   \<and> toString (littleEndianValue (hexBytes (substring
         ''000000000000000000000000000000000000000000000000000000000100000000000000'' 56 72)))
     = ''1''"
  by (simp add: parseLockArgsV2_def parseEpoch_def eval_prims digitsOf.simps)

text \<open>
  Claim C1, amended: for every input whose text after the optional \<open>0x\<close> prefix consists
  of hexadecimal digits and has at least 72 of them, \<open>parseLockArgsV2\<close> returns, and the
  version string is the decimal print of the big-endian reading of the 8 bytes at
  hexadecimal characters 56 to 72.
\<close>

theorem parseLockArgsV2_version_big_endian:
  assumes "isHex (strip0x hex)" and "72 \<le> length (strip0x hex)"
  shows "map_sum id version (parseLockArgsV2 hex)
           = Inr (toString (bigEndianValue (hexBytes (substring (strip0x hex) 56 72))))"
proof -
  define d where "d = strip0x hex"
  have hx: "isHex d" and len: "72 \<le> length d"
    using assms by (simp_all add: d_def)
  have e: "littleEndianHexToBigInt (substring d 40 56)
             = Inr (littleEndianValue (hexBytes (substring d 40 56)))"
    using hx len by (intro littleEndianHexToBigInt_even) (auto simp: isHex_take isHex_drop substring_le)
  have v: "BigInt (CHR ''0'' # CHR ''x'' # substring d 56 72) = Inr (radixValue 16 (substring d 56 72))"
    using hx len by (intro BigInt_0x) (auto simp: isHex_take isHex_drop substring_le)
  have "radixValue 16 (substring d 56 72) = bigEndianValue (hexBytes (substring d 56 72))"
    using len by (intro radixValue_be) (simp add: substring_le)
  with e v show ?thesis
    unfolding d_def by (simp add: parseLockArgsV2_def strip0x_def Let_def)
qed

text \<open>The amended claim at the input of the counterexample, with its \<open>0x\<close> prefix.\<close>

theorem parseLockArgsV2_version_big_endian_witness:
  "isHex (strip0x ''0x000000000000000000000000000000000000000000000000000000000100000000000000'')
   \<and> 72 \<le> length (strip0x ''0x000000000000000000000000000000000000000000000000000000000100000000000000'')
   \<and> map_sum id version (parseLockArgsV2
         ''0x000000000000000000000000000000000000000000000000000000000100000000000000'')
       = Inr ''72057594037927936''"
proof -
  let ?c = "''0x000000000000000000000000000000000000000000000000000000000100000000000000''"
  have h1: "isHex (strip0x ?c)"
    by (simp add: eval_prims)
  have h2: "72 \<le> length (strip0x ?c)"
    by (simp add: eval_prims)
  have "toString (bigEndianValue (hexBytes (substring (strip0x ?c) 56 72))) = ''72057594037927936''"
    by (simp add: eval_prims digitsOf.simps)
  with parseLockArgsV2_version_big_endian [OF h1 h2] h1 h2 show ?thesis
    by (simp only:)
qed

section \<open>LockArgsCodec: inputs shorter than the three fixed fields\<close>

text \<open>
  Claim C3, as stated: for every hexadecimal input shorter than 72 characters,
  \<open>parseLockArgs\<close> and \<open>parseLockArgsV2\<close> return a record with empty or partial fields
  and never raise. They do raise: an absent field is the empty text, and both integer
  readers end in \<open>BigInt('0x' + '')\<close>, a SyntaxError. The empty input shows it.
\<close>

theorem parseLockArgs_empty_input_raises:
  "isHex (strip0x []) \<and> length (strip0x []) < 72
   \<and> parseLockArgs [] = Inl SyntaxError \<and> parseLockArgsV2 [] = Inl SyntaxError"
  by (simp add: parseLockArgs_def parseLockArgsV2_def eval_prims)

text \<open>
  Claim C3, amended: let \<open>d\<close> be the input after the optional \<open>0x\<close> prefix, all of it
  hexadecimal digits. If \<open>d\<close> has 57 to 71 characters (the version field has begun),
  both decoders return: the public key hash and the delay epoch are complete, the
  version is read from the characters that are there, and the tail fields are empty
  (\<open>htlcs\<close>, \<open>settlement_hash\<close>) or absent (\<open>settlement_flag\<close>). If \<open>d\<close> has at most 56
  characters, both decoders raise a SyntaxError.
\<close>

theorem parseLockArgs_short_input:
  assumes "isHex d" and "d = strip0x hex"
  shows "(length d \<le> 56 \<longrightarrow>
            parseLockArgs hex = Inl SyntaxError \<and> parseLockArgsV2 hex = Inl SyntaxError)
       \<and> (56 < length d \<and> length d < 72 \<longrightarrow>
            parseLockArgs hex = Inr
              \<lparr> pubkey_hash = ''0x'' @ take 40 d,
                delay_epoch = parseEpoch (littleEndianValue (hexBytes (substring d 40 56))),
                version = toString (littleEndianValue (hexBytes
                   (if odd (length (drop 56 d)) then CHR ''0'' # drop 56 d else drop 56 d))),
                htlcs = Some [], settlement_hash = None, settlement_flag = None \<rparr>
          \<and> parseLockArgsV2 hex = Inr
              \<lparr> pubkey_hash = ''0x'' @ take 40 d,
                delay_epoch = parseEpoch (littleEndianValue (hexBytes (substring d 40 56))),
                version = toString (radixValue 16 (drop 56 d)),
                htlcs = None, settlement_hash = Some [], settlement_flag = None \<rparr>)"
proof (intro conjI impI)
  assume short: "length d \<le> 56"
  have ver: "substring d 56 72 = []"
    using short by (simp add: substring_le)
  have "littleEndianHexToBigInt (substring d 40 56) = Inl SyntaxError
        \<or> (\<exists>n. littleEndianHexToBigInt (substring d 40 56) = Inr n)"
  proof (cases "substring d 40 56 = []")
    case True
    then show ?thesis by (simp add: littleEndianHexToBigInt_empty)
  next
    case False
    with assms(1) littleEndianHexToBigInt_hex [of "substring d 40 56"] show ?thesis
      by (simp add: isHex_take isHex_drop substring_le)
  qed
  then show "parseLockArgs hex = Inl SyntaxError" and "parseLockArgsV2 hex = Inl SyntaxError"
    using ver assms(2)
    by (auto simp: parseLockArgs_def parseLockArgsV2_def strip0x_def Let_def
          littleEndianHexToBigInt_empty BigInt_0x_empty)
next
  assume "56 < length d \<and> length d < 72"
  then have part: "56 < length d" "length d < 72"
    by simp_all
  have ep: "littleEndianHexToBigInt (substring d 40 56)
              = Inr (littleEndianValue (hexBytes (substring d 40 56)))"
    using assms(1) part
    by (intro littleEndianHexToBigInt_even) (auto simp: isHex_take isHex_drop substring_le)
  have sub: "substring d 56 72 = drop 56 d"
    using part by (simp add: substring_le)
  have ne: "drop 56 d \<noteq> []" and hx: "isHex (drop 56 d)"
    using assms(1) part by (simp_all add: isHex_drop)
  have tl: "drop 72 d = []" "substring d 72 112 = []" "substring d 112 114 = []"
    using part by (simp_all add: substring_le)
  have pk: "substring d 0 40 = take 40 d"
    by (simp add: substring_le)
  show "parseLockArgs hex = Inr
              \<lparr> pubkey_hash = ''0x'' @ take 40 d,
                delay_epoch = parseEpoch (littleEndianValue (hexBytes (substring d 40 56))),
                version = toString (littleEndianValue (hexBytes
                   (if odd (length (drop 56 d)) then CHR ''0'' # drop 56 d else drop 56 d))),
                htlcs = Some [], settlement_hash = None, settlement_flag = None \<rparr>"
    using ep sub tl pk littleEndianHexToBigInt_hex [OF ne hx] assms(2)
    by (simp add: parseLockArgs_def strip0x_def Let_def)
  show "parseLockArgsV2 hex = Inr
              \<lparr> pubkey_hash = ''0x'' @ take 40 d,
                delay_epoch = parseEpoch (littleEndianValue (hexBytes (substring d 40 56))),
                version = toString (radixValue 16 (drop 56 d)),
                htlcs = None, settlement_hash = Some [], settlement_flag = None \<rparr>"
    using ep sub tl pk BigInt_0x [OF ne hx] assms(2)
    by (simp add: parseLockArgsV2_def strip0x_def Let_def)
qed

text \<open>The amended claim at the empty input and at an input of 59 digits, whose version
  field holds the three characters \<open>010\<close>.\<close>

theorem parseLockArgs_short_input_witness:
  "isHex [] \<and> [] = strip0x [] \<and> length ([] :: string) \<le> 56
   \<and> parseLockArgs [] = Inl SyntaxError \<and> parseLockArgsV2 [] = Inl SyntaxError
   \<and> isHex ''00000000000000000000000000000000000000000000000000000000010''
   \<and> 56 < length ''00000000000000000000000000000000000000000000000000000000010''
   \<and> length ''00000000000000000000000000000000000000000000000000000000010'' < 72
   \<and> map_sum id version
        (parseLockArgs ''00000000000000000000000000000000000000000000000000000000010'')
       = Inr ''4096''
   \<and> map_sum id version
        (parseLockArgsV2 ''00000000000000000000000000000000000000000000000000000000010'')
       = Inr ''16''"
proof -
  let ?c = "''00000000000000000000000000000000000000000000000000000000010''"
  have a: "isHex []" "[] = strip0x []" "length ([] :: string) \<le> 56"
    by (simp_all add: eval_prims)
  have b: "isHex ?c" "?c = strip0x ?c" "56 < length ?c \<and> length ?c < 72"
    by (simp_all add: eval_prims)
  have v1: "toString (littleEndianValue (hexBytes
              (if odd (length (drop 56 ?c)) then CHR ''0'' # drop 56 ?c else drop 56 ?c))) = ''4096''"
    by (simp add: eval_prims digitsOf.simps)
  have v2: "toString (radixValue 16 (drop 56 ?c)) = ''16''"
    by (simp add: eval_prims digitsOf.simps)
  from parseLockArgs_short_input [OF a(1,2)] a(3)
  have r1: "parseLockArgs [] = Inl SyntaxError \<and> parseLockArgsV2 [] = Inl SyntaxError"
    by blast
  from parseLockArgs_short_input [OF b(1,2)] b(3)
  have r2: "map_sum id version (parseLockArgs ?c) = Inr (toString (littleEndianValue (hexBytes
              (if odd (length (drop 56 ?c)) then CHR ''0'' # drop 56 ?c else drop 56 ?c))))"
       "map_sum id version (parseLockArgsV2 ?c) = Inr (toString (radixValue 16 (drop 56 ?c)))"
    by simp_all
  show ?thesis
    using a b r1 r2 v1 v2 by (simp only:)
qed

section \<open>WitnessCodec: the revocation branch\<close>

text \<open>
  Claim C4, as stated: for a witness whose discriminator byte is \<open>0xFF\<close> (\<open>parseWitness\<close>)
  or \<open>0x00\<close> (\<open>parseWitnessV2\<close>), the version of the revocation variant is the
  little-endian u64 reading of the 8 bytes after the discriminator. It is not: both
  decoders compute \<open>BigInt('0x' + data.substring(34, 50))\<close>, the big-endian reading. On a
  witness with version bytes \<open>01 00 00 00 00 00 00 00\<close> the version is
  \<open>72057594037927936\<close>, while the little-endian reading is \<open>1\<close>.
\<close>

theorem parseWitness_revocation_version_not_little_endian:
  "parseWitness plainHost ''00000000000000000000000000000000ff0100000000000000aabb''
     = Inr \<lparr> empty_witness_args = ''0x00000000000000000000000000000000'',
             unlock_type = Some (Num 255), unlock_count = None,
             revocation = Some \<lparr> rv_version = ''72057594037927936'', rv_pubkey = ''0xaabb'',
                                 rv_signature = ''0x'' \<rparr>,
             non_pending_htlc = None, pending_htlc = None, settlement = None,
             pw_error = None \<rparr>
   \<and> toString (littleEndianValue (hexBytes (substring
         ''00000000000000000000000000000000ff0100000000000000aabb'' 34 50))) = ''1''"
  by (simp add: parseWitness_def emptyWitness_def eval_prims digitsOf.simps)

text \<open>
  Claim C4, amended: let \<open>d1\<close> and \<open>d2\<close> be two witnesses after the optional \<open>0x\<close> prefix,
  with the same text from character 34 on, 16 hexadecimal digits at characters 34 to
  50, and discriminators (characters 32 to 34) that read \<open>0xFF\<close> in \<open>d1\<close> and \<open>0x00\<close> in
  \<open>d2\<close>. Then \<open>parseWitness\<close> on the first returns the revocation variant whose version
  is the decimal print of the big-endian reading of those 8 bytes, whose public key is
  the next 32 bytes and whose signature is the rest; and \<open>parseWitnessV2\<close> on the second
  returns the very same revocation record.
\<close>

theorem parseWitness_revocation_big_endian:
  assumes "parseInt16 (substring (strip0x w1) 32 34) = Num 255"
    and "parseInt16 (substring (strip0x w2) 32 34) = Num 0"
    and "drop 34 (strip0x w1) = drop 34 (strip0x w2)"
    and "isHex (substring (strip0x w1) 34 50)"
    and "50 \<le> length (strip0x w1)"
  shows "map_sum id revocation (parseWitness h w1)
           = Inr (Some \<lparr> rv_version = toString (bigEndianValue (hexBytes
                                          (substring (strip0x w1) 34 50))),
                          rv_pubkey = ''0x'' @ substring (strip0x w1) 50 114,
                          rv_signature = ''0x'' @ drop 114 (strip0x w1) \<rparr>)
       \<and> map_sum id revocation (parseWitnessV2 h w2)
           = map_sum id revocation (parseWitness h w1)"
proof -
  define d1 where "d1 = strip0x w1"
  define d2 where "d2 = strip0x w2"
  have same: "drop 34 d1 = drop 34 d2"
    using assms(3) by (simp add: d1_def d2_def)
  have s1: "substring d2 34 50 = substring d1 34 50"
    using same by (simp add: substring_le)
  have s2: "substring d2 50 114 = substring d1 50 114"
    using same drop_drop [of 16 34 d1] drop_drop [of 16 34 d2] by (simp add: substring_le)
  have s3: "drop 114 d2 = drop 114 d1"
    using same drop_drop [of 80 34 d1] drop_drop [of 80 34 d2] by simp
  have ne: "substring d1 34 50 \<noteq> []"
    using assms(5) by (simp add: substring_le d1_def)
  have "BigInt (CHR ''0'' # CHR ''x'' # substring d1 34 50) = Inr (radixValue 16 (substring d1 34 50))"
    using ne assms(4) by (intro BigInt_0x) (simp_all add: d1_def)
  moreover have "radixValue 16 (substring d1 34 50) = bigEndianValue (hexBytes (substring d1 34 50))"
    using assms(5) by (intro radixValue_be) (simp add: substring_le d1_def)
  ultimately have v: "BigInt (CHR ''0'' # CHR ''x'' # substring d1 34 50)
      = Inr (bigEndianValue (hexBytes (substring d1 34 50)))"
    by simp
  have r1: "map_sum id revocation (parseWitness h w1)
           = Inr (Some \<lparr> rv_version = toString (bigEndianValue (hexBytes (substring d1 34 50))),
                          rv_pubkey = ''0x'' @ substring d1 50 114,
                          rv_signature = ''0x'' @ drop 114 d1 \<rparr>)"
    using assms(1) v
    by (simp add: parseWitness_def strip0x_def Let_def d1_def [symmetric, unfolded strip0x_def])
  have r2: "map_sum id revocation (parseWitnessV2 h w2)
           = Inr (Some \<lparr> rv_version = toString (bigEndianValue (hexBytes (substring d1 34 50))),
                          rv_pubkey = ''0x'' @ substring d1 50 114,
                          rv_signature = ''0x'' @ drop 114 d1 \<rparr>)"
    using assms(2) v s1 s2 s3
    by (simp add: parseWitnessV2_def strip0x_def Let_def d2_def [symmetric, unfolded strip0x_def])
  show ?thesis
    using r1 r2 unfolding d1_def by simp
qed

text \<open>The amended claim at the witness of the counterexample and its \<open>0x00\<close> twin.\<close>

theorem parseWitness_revocation_big_endian_witness:
  "parseInt16 (substring (strip0x ''0x00000000000000000000000000000000ff0100000000000000aabb'') 32 34)
     = Num 255
   \<and> parseInt16 (substring (strip0x ''00000000000000000000000000000000000100000000000000aabb'') 32 34)
     = Num 0
   \<and> map_sum id revocation
        (parseWitness plainHost ''0x00000000000000000000000000000000ff0100000000000000aabb'')
       = Inr (Some \<lparr> rv_version = ''72057594037927936'', rv_pubkey = ''0xaabb'',
                      rv_signature = ''0x'' \<rparr>)
   \<and> map_sum id revocation
        (parseWitnessV2 plainHost ''00000000000000000000000000000000000100000000000000aabb'')
       = Inr (Some \<lparr> rv_version = ''72057594037927936'', rv_pubkey = ''0xaabb'',
                      rv_signature = ''0x'' \<rparr>)"
proof -
  let ?w1 = "''0x00000000000000000000000000000000ff0100000000000000aabb''"
  let ?w2 = "''00000000000000000000000000000000000100000000000000aabb''"
  have a1: "parseInt16 (substring (strip0x ?w1) 32 34) = Num 255"
    by (simp add: eval_prims)
  have a2: "parseInt16 (substring (strip0x ?w2) 32 34) = Num 0"
    by (simp add: eval_prims)
  have a3: "drop 34 (strip0x ?w1) = drop 34 (strip0x ?w2)"
    by (simp add: eval_prims)
  have a4: "isHex (substring (strip0x ?w1) 34 50)"
    by (simp add: eval_prims)
  have a5: "50 \<le> length (strip0x ?w1)"
    by (simp add: eval_prims)
  have v: "\<lparr> rv_version = toString (bigEndianValue (hexBytes (substring (strip0x ?w1) 34 50))),
             rv_pubkey = ''0x'' @ substring (strip0x ?w1) 50 114,
             rv_signature = ''0x'' @ drop 114 (strip0x ?w1) \<rparr>
           = \<lparr> rv_version = ''72057594037927936'', rv_pubkey = ''0xaabb'', rv_signature = ''0x'' \<rparr>"
    by (simp add: eval_prims digitsOf.simps)
  from parseWitness_revocation_big_endian [OF a1 a2 a3 a4 a5, of plainHost]
  show ?thesis
    using a1 a2 unfolding v by (simp only:)
qed

section \<open>TxMessageBuilder: auxiliary facts\<close>

lemma firstFailure_None: "firstFailure rs = None \<longleftrightarrow> (\<forall>r \<in> set rs. \<exists>a. r = Inr a)"
  by (induction rs rule: firstFailure.induct) auto

lemma rights_map_Inr: "rights (map Inr ps) = ps"
  by (induction ps) auto

lemma all_Inr_map: "(\<forall>r \<in> set rs. \<exists>a. r = Inr a) \<Longrightarrow> rs = map Inr (rights rs)"
  by (induction rs rule: rights.induct) auto

lemma set_completionOrder: "set (completionOrder order n) = {0..<n}"
  by (auto simp: completionOrder_def)

lemma firstFailure_schedule:
  "firstFailure (map (\<lambda>i. rs ! i) (completionOrder order (length rs))) = None
     \<longleftrightarrow> rs = map Inr (rights rs)"
proof
  assume "firstFailure (map (\<lambda>i. rs ! i) (completionOrder order (length rs))) = None"
  then have "\<forall>i < length rs. \<exists>a. rs ! i = Inr a"
    by (auto simp: firstFailure_None set_completionOrder)
  then have "\<forall>r \<in> set rs. \<exists>a. r = Inr a"
    by (auto simp: in_set_conv_nth)
  then show "rs = map Inr (rights rs)"
    by (rule all_Inr_map)
next
  assume a: "rs = map Inr (rights rs)"
  have "\<forall>i < length rs. \<exists>a. rs ! i = Inr a"
  proof (intro allI impI)
    fix i assume "i < length rs"
    then have "i < length (rights rs)" using a by (metis length_map)
    then have "map Inr (rights rs) ! i = Inr (rights rs ! i)" by simp
    then show "\<exists>a. rs ! i = Inr a" using a by metis
  qed
  then show "firstFailure (map (\<lambda>i. rs ! i) (completionOrder order (length rs))) = None"
    by (auto simp: firstFailure_None set_completionOrder)
qed

lemma foldl_add: "foldl (\<lambda>acc c. acc + f c) a xs = a + sum_list (map f xs)" for a :: int
  by (induction xs arbitrary: a) auto

lemma foldl_sub: "foldl (\<lambda>acc c. acc - f c) a xs = a - sum_list (map f xs)" for a :: int
  by (induction xs arbitrary: a) auto

lemma udtOrZero_eq: "udtOrZero c = (case udt_capacity c of None \<Rightarrow> 0 | Some u \<Rightarrow> u)"
  by (simp add: udtOrZero_def split: option.splits)

lemma sum_addBal:
  "sum_list (map (\<lambda>(a, c, u). c) (addBal a cd ud m)) = sum_list (map (\<lambda>(a, c, u). c) m) + cd"
  "sum_list (map (\<lambda>(a, c, u). u) (addBal a cd ud m)) = sum_list (map (\<lambda>(a, c, u). u) m) + ud"
  by (induction a cd ud m rule: addBal.induct) auto

lemma sum_updateAll:
  "updateAll m upds = Inr m' \<Longrightarrow>
     sum_list (map (\<lambda>(a, c, u). c) m') = sum_list (map (\<lambda>(a, c, u). c) m) + sum_list (map (\<lambda>(a, c, u). c) upds)
   \<and> sum_list (map (\<lambda>(a, c, u). u) m') = sum_list (map (\<lambda>(a, c, u). u) m) + sum_list (map (\<lambda>(a, c, u). u) upds)"
proof (induction m upds rule: updateAll.induct)
  case (1 balanceMap)
  then show ?case by simp
next
  case (2 balanceMap upd upds)
  then show ?case
    by (auto simp: updateBal_def sum_addBal split: sum.splits prod.splits if_splits)
qed

lemma digitVal_digitChar: "0 \<le> d \<Longrightarrow> d < 10 \<Longrightarrow> digitVal (digitChar d) = d"
  by (simp add: digitChar_def digitVal_def hexDigit_def) arith

lemma digitChar_not_minus: "digitChar d \<noteq> CHR ''-''"
  by (simp add: digitChar_def)

lemma radixValue_snoc: "radixValue r (s @ [c]) = radixValue r s * r + digitVal c"
  by (simp add: radixValue_def)

lemma radixValue_digitsOf: "0 \<le> n \<Longrightarrow> radixValue 10 (digitsOf n) = n"
proof (induction n rule: digitsOf.induct)
  case (1 n)
  show ?case
  proof (cases "n < 10")
    case True
    with 1(2) show ?thesis
      by (subst digitsOf.simps) (simp add: radixValue_def digitVal_digitChar)
  next
    case False
    then have "radixValue 10 (digitsOf (n div 10)) = n div 10"
      using 1 by simp
    moreover have "digitVal (digitChar (n mod 10)) = n mod 10"
      by (simp add: digitVal_digitChar)
    ultimately show ?thesis
      using False by (subst digitsOf.simps) (simp add: radixValue_snoc)
  qed
qed

lemma hd_digitsOf: "digitsOf n \<noteq> [] \<and> hd (digitsOf n) \<noteq> CHR ''-''"
proof (induction n rule: digitsOf.induct)
  case (1 n)
  show ?case
  proof (cases "n < 10")
    case True
    then show ?thesis by (subst (1 2) digitsOf.simps) (simp add: digitChar_not_minus)
  next
    case False
    with 1 show ?thesis by (subst (1 2) digitsOf.simps) simp
  qed
qed

lemma decimalValue_toString: "decimalValue (toString i) = i"
  using hd_digitsOf [of i] by (simp add: decimalValue_def toString_def radixValue_digitsOf)

lemma getTxMessage_unfold:
  assumes tx: "get_transaction ch txHash = Inr (Some txData)"
    and res: "map (resolveInput ch) (inputs (transaction txData)) = map Inr prevs"
  shows "getTxMessage h ch order cch txHash =
     (case sequence (map (outputCell (transaction txData))
                         (enumerate 0 (outputs (transaction txData)))) of
        Inl e \<Rightarrow> Inl e
      | Inr ocs \<Rightarrow>
          (case updateAll []
                  (map (\<lambda>c. (ci_args c, - ci_capacity c, - udtOrZero c)) (map snd prevs)
                   @ map (\<lambda>c. (ci_args c, ci_capacity c, udtOrZero c)) ocs) of
             Inl e \<Rightarrow> Inl e
           | Inr bm \<Rightarrow>
               Inr \<lparr> input_cells = map snd prevs,
                     output_cells = ocs,
                     fee = toString (sum_list (map ci_capacity (map snd prevs))
                                     - sum_list (map ci_capacity ocs)),
                     udt_fee = toString (sum_list (map udtOrZero (map snd prevs))
                                         - sum_list (map udtOrZero ocs)),
                     parsed_witness =
                       foldl (witnessStep h cch (witnesses (transaction txData))) None
                             (map (\<lambda>i. (i, fst (prevs ! i)))
                                  (completionOrder order (length prevs))),
                     balance_changes = balanceChanges bm,
                     block_number = fst (blockMeta h ch txData),
                     block_timestamp = snd (blockMeta h ch txData) \<rparr>))"
proof -
  define resolved where "resolved = map (resolveInput ch) (inputs (transaction txData))"
  have r: "resolved = map Inr prevs"
    using res by (simp add: resolved_def)
  then have rr: "rights resolved = prevs" and len: "length resolved = length prevs"
    by (simp_all add: rights_map_Inr)
  have "firstFailure (map (\<lambda>i. resolved ! i) (completionOrder order (length resolved))) = None"
    using r rr by (simp only: firstFailure_schedule)
  then have ff: "firstFailure (map ((!) resolved) (completionOrder order (length prevs))) = None"
    by (simp only: len)
  show ?thesis
    unfolding getTxMessage_def
    by (simp only: tx sum.case option.case Let_def resolved_def [symmetric] rr len ff)
       (simp add: foldl_add foldl_sub split: sum.splits)
qed

lemma getTxMessage_unresolved:
  assumes tx: "get_transaction ch txHash = Inr (Some txData)"
    and res: "\<nexists>prevs. map (resolveInput ch) (inputs (transaction txData)) = map Inr prevs"
  shows "\<exists>e. getTxMessage h ch order cch txHash = Inl e"
proof -
  define resolved where "resolved = map (resolveInput ch) (inputs (transaction txData))"
  have "resolved \<noteq> map Inr (rights resolved)"
    using res unfolding resolved_def by metis
  then have "firstFailure (map (\<lambda>i. resolved ! i) (completionOrder order (length resolved))) \<noteq> None"
    by (simp only: firstFailure_schedule) simp
  then obtain e where
    ff: "firstFailure (map ((!) resolved) (completionOrder order (length resolved))) = Some e"
    by auto
  show ?thesis
    unfolding getTxMessage_def
    by (simp only: tx sum.case option.case Let_def resolved_def [symmetric] ff) simp
qed

lemmas eval_ledger = commitmentHash_def channelLock_def payeeLock_def spendOpen_def openTx_def
  closeTx_def truncatedTx_def overpayTx_def ledgerTransaction_def ledgerHeader_def
  ledgerTransactions_def ledger_def plainHost_def channelLock2_def spendOpen2_def jointTx_def
  openOutput_def openOutput2_def

lemmas eval_builder = nth_opt_def at_number_def MIN_LOCK_ARGS_HEX_LEN_def resolveInput_def
  errorWitness_def emptyWitness_def decodeWitness_def witnessStep_def completionOrder_def
  outputCell_def udtOrZero_def objectPrototypeKeys_def updateBal_def balanceChanges_def
  isArrayIndex_def objectEntries_def blockMeta_def getTxMessage_def enumerate_eq_zip
  errorVariant_def

lemma getTxMessage_Inr_cases:
  assumes tx: "get_transaction ch txHash = Inr (Some txData)"
    and ok: "getTxMessage h ch order cch txHash = Inr m"
  obtains prevs ocs bm where
    "map (resolveInput ch) (inputs (transaction txData)) = map Inr prevs"
    "sequence (map (outputCell (transaction txData))
                   (enumerate 0 (outputs (transaction txData)))) = Inr ocs"
    "updateAll []
       (map (\<lambda>c. (ci_args c, - ci_capacity c, - udtOrZero c)) (map snd prevs)
        @ map (\<lambda>c. (ci_args c, ci_capacity c, udtOrZero c)) ocs) = Inr bm"
    "m = \<lparr> input_cells = map snd prevs,
           output_cells = ocs,
           fee = toString (sum_list (map ci_capacity (map snd prevs))
                           - sum_list (map ci_capacity ocs)),
           udt_fee = toString (sum_list (map udtOrZero (map snd prevs))
                               - sum_list (map udtOrZero ocs)),
           parsed_witness =
             foldl (witnessStep h cch (witnesses (transaction txData))) None
                   (map (\<lambda>i. (i, fst (prevs ! i))) (completionOrder order (length prevs))),
           balance_changes = balanceChanges bm,
           block_number = fst (blockMeta h ch txData),
           block_timestamp = snd (blockMeta h ch txData) \<rparr>"
proof -
  obtain prevs where res: "map (resolveInput ch) (inputs (transaction txData)) = map Inr prevs"
    using getTxMessage_unresolved [OF tx, of h order cch] ok by fastforce
  note u = getTxMessage_unfold [OF tx res, of h order cch]
  obtain ocs where oc: "sequence (map (outputCell (transaction txData))
                   (enumerate 0 (outputs (transaction txData)))) = Inr ocs"
    using u ok by (auto split: sum.splits)
  obtain bm where b: "updateAll []
       (map (\<lambda>c. (ci_args c, - ci_capacity c, - udtOrZero c)) (map snd prevs)
        @ map (\<lambda>c. (ci_args c, ci_capacity c, udtOrZero c)) ocs) = Inr bm"
    using u ok oc by (auto split: sum.splits)
  have "getTxMessage h ch order cch txHash = Inr m"
    by (rule ok)
  then show thesis
    unfolding u oc b sum.case by (intro that [OF res oc b]) simp
qed

lemma resolveInput_capacity:
  "resolveInput ch input = Inr (prevOutput, c) \<Longrightarrow> BigInt (capacity prevOutput) = Inr (ci_capacity c)"
  by (auto simp: resolveInput_def Let_def split: sum.splits option.splits)

lemma outputCell_capacity:
  "outputCell tx (i, output) = Inr c \<Longrightarrow> BigInt (capacity output) = Inr (ci_capacity c)"
  by (auto simp: outputCell_def Let_def split: sum.splits option.splits)

lemma sequence_map_Inr: "sequence (map Inr ys) = Inr ys"
  by (induction ys) auto

lemma sequence_Inr: "sequence rs = Inr ys \<longleftrightarrow> rs = map Inr ys"
proof
  show "sequence rs = Inr ys \<Longrightarrow> rs = map Inr ys"
    by (induction rs arbitrary: ys rule: sequence.induct) (auto split: sum.splits)
qed (simp add: sequence_map_Inr)

lemma map_eq_map_Inr: "map f xs = map Inr ys \<Longrightarrow> list_all2 (\<lambda>x y. f x = Inr y) xs ys"
  by (induction xs arbitrary: ys) auto

lemma list_all2_enumerate:
  "list_all2 (\<lambda>x y. P (fst x) (snd x) y) (enumerate n xs) ys \<Longrightarrow> list_all2 (\<lambda>x y. \<exists>i. P i x y) xs ys"
  by (induction xs arbitrary: n ys) (auto simp: list_all2_Cons1)

lemma getTxMessage_closeTx:
  "getTxMessage plainHost ledger [] commitmentHash ''0x02'' = Inr closeMsg"
  by (simp add: closeMsg_def channelCell_def eval_builder eval_ledger eval_prims
        parseWitness_def digitsOf.simps)

lemma getTxMessage_overpayTx:
  "getTxMessage plainHost ledger [] commitmentHash ''0x04'' = Inr overpayMsg"
  by (simp add: overpayMsg_def channelCell_def eval_builder eval_ledger eval_prims
        digitsOf.simps)

lemma sum_insort_key:
  "sum_list (map f (insort_key k x xs)) = f x + sum_list (map f xs)" for f :: "'a \<Rightarrow> int"
  by (induction xs) auto

lemma sum_sort_key:
  "sum_list (map f (sort_key k xs)) = sum_list (map f xs)" for f :: "'a \<Rightarrow> int"
  by (induction xs) (simp_all add: sum_insort_key)

lemma sum_objectEntries:
  "sum_list (map f (objectEntries obj)) = sum_list (map f obj)" for f :: "string \<times> 'a \<Rightarrow> int"
proof -
  have "sum_list (map f (filter (\<lambda>(k, v). isArrayIndex k) obj))
        + sum_list (map f (filter (\<lambda>(k, v). \<not> isArrayIndex k) obj)) = sum_list (map f obj)"
    by (induction obj) auto
  then show ?thesis
    unfolding objectEntries_def by (simp add: sum_sort_key)
qed

lemma set_objectEntries: "set (objectEntries obj) = set obj"
  unfolding objectEntries_def by auto

lemma sum_nonzero_entries:
  "sum_list (map (\<lambda>(a, bc). decimalValue (ckb bc))
       (map (\<lambda>(a, c, u). (a, \<lparr> ckb = toString c, udt = toString u \<rparr>))
            (filter (\<lambda>(a, c, u). c \<noteq> 0 \<or> u \<noteq> 0) xs)))
     = sum_list (map (\<lambda>(a, c, u). c) xs)"
  "sum_list (map (\<lambda>(a, bc). decimalValue (udt bc))
       (map (\<lambda>(a, c, u). (a, \<lparr> ckb = toString c, udt = toString u \<rparr>))
            (filter (\<lambda>(a, c, u). c \<noteq> 0 \<or> u \<noteq> 0) xs)))
     = sum_list (map (\<lambda>(a, c, u). u) xs)"
  by (induction xs) (auto simp: decimalValue_toString)

lemma sum_balanceChanges:
  "sum_list (map (\<lambda>(a, bc). decimalValue (ckb bc)) (balanceChanges bm))
     = sum_list (map (\<lambda>(a, c, u). c) bm)"
  "sum_list (map (\<lambda>(a, bc). decimalValue (udt bc)) (balanceChanges bm))
     = sum_list (map (\<lambda>(a, c, u). u) bm)"
  unfolding balanceChanges_def
  by (simp_all only: sum_nonzero_entries sum_objectEntries)

lemma sum_list_neg: "sum_list (map (\<lambda>x. - f x) xs) = - sum_list (map f xs)" for f :: "'a \<Rightarrow> int"
  by (induction xs) auto

section \<open>TxMessageBuilder: fee\<close>

text \<open>
  Claim C6. Whenever \<open>getTxMessage\<close> returns a message for a transaction, each input cell
  is the resolution of the corresponding input and carries the capacity of the
  previous output, each output cell carries the capacity of the corresponding output,
  \<open>fee\<close> is the decimal print of the sum of the input capacities minus the sum of the
  output capacities, and \<open>udt_fee\<close> is the sum of the input UDT amounts minus the sum of
  the output UDT amounts, an absent amount counting as zero. No sign is tested: a
  negative difference is returned like any other.
\<close>

theorem getTxMessage_fee:
  assumes "get_transaction ch txHash = Inr (Some txData)"
    and "getTxMessage h ch order cch txHash = Inr m"
  shows "list_all2 (\<lambda>input c. \<exists>prevOutput. resolveInput ch input = Inr (prevOutput, c)
                        \<and> BigInt (capacity prevOutput) = Inr (ci_capacity c))
           (inputs (transaction txData)) (input_cells m)
       \<and> list_all2 (\<lambda>output c. BigInt (capacity output) = Inr (ci_capacity c))
           (outputs (transaction txData)) (output_cells m)
       \<and> fee m = toString (sum_list (map ci_capacity (input_cells m))
                            - sum_list (map ci_capacity (output_cells m)))
       \<and> udt_fee m = toString
           (sum_list (map (\<lambda>c. case udt_capacity c of None \<Rightarrow> 0 | Some u \<Rightarrow> u) (input_cells m))
            - sum_list (map (\<lambda>c. case udt_capacity c of None \<Rightarrow> 0 | Some u \<Rightarrow> u) (output_cells m)))"
proof -
  from assms obtain prevs ocs bm where
    res: "map (resolveInput ch) (inputs (transaction txData)) = map Inr prevs"
    and oc: "sequence (map (outputCell (transaction txData))
                   (enumerate 0 (outputs (transaction txData)))) = Inr ocs"
    and m: "m = \<lparr> input_cells = map snd prevs,
           output_cells = ocs,
           fee = toString (sum_list (map ci_capacity (map snd prevs))
                           - sum_list (map ci_capacity ocs)),
           udt_fee = toString (sum_list (map udtOrZero (map snd prevs))
                               - sum_list (map udtOrZero ocs)),
           parsed_witness =
             foldl (witnessStep h cch (witnesses (transaction txData))) None
                   (map (\<lambda>i. (i, fst (prevs ! i))) (completionOrder order (length prevs))),
           balance_changes = balanceChanges bm,
           block_number = fst (blockMeta h ch txData),
           block_timestamp = snd (blockMeta h ch txData) \<rparr>"
    by (rule getTxMessage_Inr_cases)
  have "list_all2 (\<lambda>input p. resolveInput ch input = Inr p) (inputs (transaction txData)) prevs"
    using res by (rule map_eq_map_Inr)
  then have "list_all2 (\<lambda>input c. \<exists>prevOutput. resolveInput ch input = Inr (prevOutput, c)
                        \<and> BigInt (capacity prevOutput) = Inr (ci_capacity c))
           (inputs (transaction txData)) (map snd prevs)"
    unfolding list_all2_map2
    by (rule list_all2_mono) (metis prod.collapse resolveInput_capacity)
  moreover
  have "list_all2 (\<lambda>x y. outputCell (transaction txData) x = Inr y)
          (enumerate 0 (outputs (transaction txData))) ocs"
    using oc by (intro map_eq_map_Inr) (simp add: sequence_Inr)
  then have "list_all2 (\<lambda>x y. BigInt (capacity (snd x)) = Inr (ci_capacity y))
          (enumerate 0 (outputs (transaction txData))) ocs"
    by (rule list_all2_mono) (metis prod.collapse outputCell_capacity)
  then have "list_all2 (\<lambda>output c. \<exists>i::nat. BigInt (capacity output) = Inr (ci_capacity c))
           (outputs (transaction txData)) ocs"
    by (rule list_all2_enumerate)
  then have "list_all2 (\<lambda>output c. BigInt (capacity output) = Inr (ci_capacity c))
           (outputs (transaction txData)) ocs"
    by simp
  moreover have "udtOrZero = (\<lambda>c. case udt_capacity c of None \<Rightarrow> 0 | Some u \<Rightarrow> u)"
    by (rule ext) (rule udtOrZero_eq)
  ultimately show ?thesis
    by (simp add: m)
qed

text \<open>The claim's example, and its mirror image: spending the 1000-shannon cell into a
  990-shannon output gives the fee \<open>10\<close>, spending it into a 1010-shannon output gives
  the fee \<open>-10\<close>.\<close>

theorem getTxMessage_fee_witness:
  "get_transaction ledger ''0x02'' = Inr (Some closeTx)
   \<and> getTxMessage plainHost ledger [] commitmentHash ''0x02'' = Inr closeMsg
   \<and> map ci_capacity (input_cells closeMsg) = [1000]
   \<and> map ci_capacity (output_cells closeMsg) = [990]
   \<and> fee closeMsg = ''10''
   \<and> get_transaction ledger ''0x04'' = Inr (Some overpayTx)
   \<and> getTxMessage plainHost ledger [] commitmentHash ''0x04'' = Inr overpayMsg
   \<and> map ci_capacity (output_cells overpayMsg) = [1010]
   \<and> fee overpayMsg = ''-10''"
proof -
  have t2: "get_transaction ledger ''0x02'' = Inr (Some closeTx)"
    and t4: "get_transaction ledger ''0x04'' = Inr (Some overpayTx)"
    by (simp_all add: ledger_def ledgerTransaction_def)
  have c2: "map ci_capacity (input_cells closeMsg) = [1000]"
           "map ci_capacity (output_cells closeMsg) = [990]"
    and c4: "map ci_capacity (input_cells overpayMsg) = [1000]"
            "map ci_capacity (output_cells overpayMsg) = [1010]"
    by (simp_all add: closeMsg_def overpayMsg_def channelCell_def)
  have "fee closeMsg = toString (sum_list (map ci_capacity (input_cells closeMsg))
                            - sum_list (map ci_capacity (output_cells closeMsg)))"
    using getTxMessage_fee [OF t2 getTxMessage_closeTx] by (elim conjE)
  then have f2: "fee closeMsg = ''10''"
    unfolding c2 by (simp add: toString_def digitsOf.simps digitChar_def)
  have "fee overpayMsg = toString (sum_list (map ci_capacity (input_cells overpayMsg))
                            - sum_list (map ci_capacity (output_cells overpayMsg)))"
    using getTxMessage_fee [OF t4 getTxMessage_overpayTx] by (elim conjE)
  then have f4: "fee overpayMsg = ''-10''"
    unfolding c4 by (simp add: toString_def digitsOf.simps digitChar_def)
  show ?thesis
    using t2 t4 c2 c4 f2 f4 getTxMessage_closeTx getTxMessage_overpayTx by (simp only:)
qed

section \<open>TxMessageBuilder: conservation\<close>

text \<open>
  Claim C10. Whenever \<open>getTxMessage\<close> returns a message, the CKB deltas of
  \<open>balance_changes\<close> sum to minus the fee and the UDT deltas sum to minus the UDT fee
  (the printed decimals being read back as integers). Dropping the entries whose two
  deltas are zero changes neither sum: for every balance map, the sums over the
  entries kept equal the sums over all entries.
\<close>

theorem getTxMessage_conservation:
  assumes "get_transaction ch txHash = Inr (Some txData)"
    and "getTxMessage h ch order cch txHash = Inr m"
  shows "sum_list (map (\<lambda>(a, bc). decimalValue (ckb bc)) (balance_changes m))
           = - decimalValue (fee m)
       \<and> sum_list (map (\<lambda>(a, bc). decimalValue (udt bc)) (balance_changes m))
           = - decimalValue (udt_fee m)
       \<and> sum_list (map (\<lambda>(a, bc). decimalValue (ckb bc)) (balanceChanges balanceMap))
           = sum_list (map (\<lambda>(a, c, u). c) balanceMap)
       \<and> sum_list (map (\<lambda>(a, bc). decimalValue (udt bc)) (balanceChanges balanceMap))
           = sum_list (map (\<lambda>(a, c, u). u) balanceMap)"
proof -
  from assms obtain prevs ocs bm where
    b: "updateAll []
       (map (\<lambda>c. (ci_args c, - ci_capacity c, - udtOrZero c)) (map snd prevs)
        @ map (\<lambda>c. (ci_args c, ci_capacity c, udtOrZero c)) ocs) = Inr bm"
    and m: "m = \<lparr> input_cells = map snd prevs,
           output_cells = ocs,
           fee = toString (sum_list (map ci_capacity (map snd prevs))
                           - sum_list (map ci_capacity ocs)),
           udt_fee = toString (sum_list (map udtOrZero (map snd prevs))
                               - sum_list (map udtOrZero ocs)),
           parsed_witness =
             foldl (witnessStep h cch (witnesses (transaction txData))) None
                   (map (\<lambda>i. (i, fst (prevs ! i))) (completionOrder order (length prevs))),
           balance_changes = balanceChanges bm,
           block_number = fst (blockMeta h ch txData),
           block_timestamp = snd (blockMeta h ch txData) \<rparr>"
    by (rule getTxMessage_Inr_cases)
  have "sum_list (map (\<lambda>(a, c, u). c) bm)
          = - sum_list (map ci_capacity (map snd prevs)) + sum_list (map ci_capacity ocs)"
   and "sum_list (map (\<lambda>(a, c, u). u) bm)
          = - sum_list (map udtOrZero (map snd prevs)) + sum_list (map udtOrZero ocs)"
    using sum_updateAll [OF b] by (simp_all add: comp_def sum_list_neg)
  then show ?thesis
    by (simp add: m sum_balanceChanges decimalValue_toString)
qed

text \<open>The conservation law on the message built for \<open>0x02\<close>: the deltas \<open>-1000\<close> and
  \<open>990\<close> sum to \<open>-10\<close>, the fee is \<open>10\<close>.\<close>

theorem getTxMessage_conservation_witness:
  "get_transaction ledger ''0x02'' = Inr (Some closeTx)
   \<and> getTxMessage plainHost ledger [] commitmentHash ''0x02'' = Inr closeMsg
   \<and> map (\<lambda>(a, bc). decimalValue (ckb bc)) (balance_changes closeMsg) = [- 1000, 990]
   \<and> decimalValue (fee closeMsg) = 10
   \<and> sum_list (map (\<lambda>(a, bc). decimalValue (ckb bc)) (balance_changes closeMsg))
       = - decimalValue (fee closeMsg)"
proof -
  have t2: "get_transaction ledger ''0x02'' = Inr (Some closeTx)"
    by (simp add: ledger_def ledgerTransaction_def)
  have v: "map (\<lambda>(a, bc). decimalValue (ckb bc)) (balance_changes closeMsg) = [- 1000, 990]"
          "decimalValue (fee closeMsg) = 10"
    by (simp_all add: closeMsg_def decimalValue_def radixValue_def digitVal_def hexDigit_def)
  have "sum_list (map (\<lambda>(a, bc). decimalValue (ckb bc)) (balance_changes closeMsg))
       = - decimalValue (fee closeMsg)"
    by (rule getTxMessage_conservation [OF t2 getTxMessage_closeTx, THEN conjunct1])
  then show ?thesis
    using t2 v getTxMessage_closeTx by (simp only:)
qed

lemma find_map: "List.find P (map f xs) = map_option f (List.find (P \<circ> f) xs)"
  by (induction xs) auto

lemma decodeWitness_long:
  "72 \<le> length (strip0x lockArgs) \<Longrightarrow>
   decodeWitness h witnessHex lockArgs =
     (case littleEndianHexToBigInt (substring (strip0x lockArgs) 56 72) of
        Inl e \<Rightarrow> Inl e
      | Inr v \<Rightarrow> (case witnessHex of
                    None \<Rightarrow> Inl TypeError
                  | Some w \<Rightarrow> map_sum id Some (if v = 1 then parseWitness h w else parseWitnessV2 h w)))"
  by (simp add: decodeWitness_def strip0x_def MIN_LOCK_ARGS_HEX_LEN_def Let_def split: sum.splits option.splits)

lemma decodeWitness_short:
  "\<not> 72 \<le> length (strip0x lockArgs) \<Longrightarrow> decodeWitness h witnessHex lockArgs = Inr None"
  by (simp add: decodeWitness_def strip0x_def MIN_LOCK_ARGS_HEX_LEN_def Let_def)

lemma map_sum_Some_not_None: "map_sum id Some r \<noteq> Inr None"
  by (cases r) auto

lemma decodeWitness_long_not_None:
  "72 \<le> length (strip0x lockArgs) \<Longrightarrow> decodeWitness h witnessHex lockArgs \<noteq> Inr None"
  by (auto simp: decodeWitness_long map_sum_Some_not_None split: sum.splits option.splits if_splits)

lemma foldl_witnessStep_Some: "foldl (witnessStep h cch ws) (Some w) xs = Some w"
  by (induction xs) (auto simp: witnessStep_def)

lemma foldl_witnessStep_None:
  "foldl (witnessStep h cch ws) None xs =
     (case List.find (\<lambda>(i, po). code_hash (lock po) = cch
                                 \<and> 72 \<le> length (strip0x (args (lock po)))) xs of
        None \<Rightarrow> None
      | Some (i, po) \<Rightarrow>
          Some (case decodeWitness h (nth_opt ws i) (args (lock po)) of
                  Inl e \<Rightarrow> errorWitness e
                | Inr None \<Rightarrow> errorWitness TypeError
                | Inr (Some w) \<Rightarrow> w))"
proof (induction xs)
  case Nil
  then show ?case by simp
next
  case (Cons x xs)
  obtain i po where x: "x = (i, po)" by (cases x)
  show ?case
  proof (cases "code_hash (lock po) = cch \<and> 72 \<le> length (strip0x (args (lock po)))")
    case True
    then have "decodeWitness h (nth_opt ws i) (args (lock po)) \<noteq> Inr None"
      by (simp add: decodeWitness_long_not_None)
    with True have "witnessStep h cch ws None (i, po) =
        Some (case decodeWitness h (nth_opt ws i) (args (lock po)) of
                  Inl e \<Rightarrow> errorWitness e
                | Inr None \<Rightarrow> errorWitness TypeError
                | Inr (Some w) \<Rightarrow> w)"
      by (auto simp: witnessStep_def split: sum.splits option.splits)
    with True show ?thesis
      by (simp add: x foldl_witnessStep_Some)
  next
    case False
    then have "witnessStep h cch ws None (i, po) = None"
      by (auto simp: witnessStep_def decodeWitness_short)
    with False Cons show ?thesis
      by (auto simp: x)
  qed
qed






section \<open>TxMessageBuilder: which witness is decoded, and by which decoder\<close>




section \<open>TxMessageBuilder: exceptions of the witness decoders\<close>

text \<open>
  Claim C5. Take any transaction whose inputs all resolve (to \<open>prevs\<close>), whose output
  cells all build (to \<open>ocs\<close>) and whose balance map builds (to \<open>bm\<close>): these are the
  steps outside the \<open>try\<close> block. Let input \<open>i\<close> be the first one, in order of
  completion, under the commitment code hash with lock args of at least 72 characters,
  and let the body of the \<open>try\<close> block raise \<open>e\<close> on it (whether in \<open>parseWitness\<close>, in
  \<open>parseWitnessV2\<close>, on a missing witness or in reading the version). Then
  \<open>getTxMessage\<close> returns a message, and in it: \<open>parsed_witness\<close> is present, its
  \<open>error\<close> field holds \<open>e\<close>, its \<open>empty_witness_args\<close> is the empty string and it has no
  other field; the input and output cells are those resolved and built; the fee and the
  UDT fee are the differences of the sums; and the balance changes are the entries of
  the balance map with a non-zero delta, printed in decimal.
\<close>

theorem getTxMessage_witness_errors_caught:
  assumes "get_transaction ch txHash = Inr (Some txData)"
    and "map (resolveInput ch) (inputs (transaction txData)) = map Inr prevs"
    and "sequence (map (outputCell (transaction txData))
                       (enumerate 0 (outputs (transaction txData)))) = Inr ocs"
    and "updateAll []
           (map (\<lambda>c. (ci_args c, - ci_capacity c, - udtOrZero c)) (map snd prevs)
            @ map (\<lambda>c. (ci_args c, ci_capacity c, udtOrZero c)) ocs) = Inr bm"
    and "List.find (\<lambda>i. code_hash (lock (fst (prevs ! i))) = cch
                        \<and> 72 \<le> length (strip0x (args (lock (fst (prevs ! i))))))
           (completionOrder order (length prevs)) = Some i"
    and "decodeWitness h (nth_opt (witnesses (transaction txData)) i)
           (args (lock (fst (prevs ! i)))) = Inl e"
  shows "map_sum id (\<lambda>m. (parsed_witness m, input_cells m, output_cells m, fee m, udt_fee m,
                           set (balance_changes m)))
           (getTxMessage h ch order cch txHash)
         = Inr (Some \<lparr> empty_witness_args = [], unlock_type = None, unlock_count = None,
                       revocation = None, non_pending_htlc = None, pending_htlc = None,
                       settlement = None, pw_error = Some e \<rparr>,
                map snd prevs,
                ocs,
                toString (sum_list (map ci_capacity (map snd prevs))
                          - sum_list (map ci_capacity ocs)),
                toString (sum_list (map udtOrZero (map snd prevs))
                          - sum_list (map udtOrZero ocs)),
                set (map (\<lambda>(a, c, u). (a, \<lparr> ckb = toString c, udt = toString u \<rparr>))
                         (filter (\<lambda>(a, c, u). c \<noteq> 0 \<or> u \<noteq> 0) bm)))"
proof -
  have "List.find (\<lambda>(i, po). code_hash (lock po) = cch
                                 \<and> 72 \<le> length (strip0x (args (lock po))))
          (map (\<lambda>i. (i, fst (prevs ! i))) (completionOrder order (length prevs)))
        = Some (i, fst (prevs ! i))"
    using assms(5) by (simp add: find_map comp_def)
  then have "foldl (witnessStep h cch (witnesses (transaction txData))) None
               (map (\<lambda>i. (i, fst (prevs ! i))) (completionOrder order (length prevs)))
             = Some (errorWitness e)"
    using assms(6) by (simp add: foldl_witnessStep_None)
  then have w: "foldl (witnessStep h cch (witnesses (transaction txData))) None
               (map (\<lambda>i. (i, fst (prevs ! i))) (completionOrder order (length prevs)))
             = Some \<lparr> empty_witness_args = [], unlock_type = None, unlock_count = None,
                       revocation = None, non_pending_htlc = None, pending_htlc = None,
                       settlement = None, pw_error = Some e \<rparr>"
    by (simp add: errorWitness_def emptyWitness_def)
  have b: "set (balanceChanges bm)
         = set (map (\<lambda>(a, c, u). (a, \<lparr> ckb = toString c, udt = toString u \<rparr>))
                    (filter (\<lambda>(a, c, u). c \<noteq> 0 \<or> u \<noteq> 0) bm))"
    by (simp add: balanceChanges_def set_objectEntries)
  show ?thesis
    unfolding getTxMessage_unfold [OF assms(1,2)] assms(3) sum.case assms(4) w
    by (simp add: b)
qed

text \<open>Transaction \<open>0x03\<close> spends the channel cell with a witness that ends after the
  discriminator \<open>ff\<close>: \<open>parseWitness\<close> raises a SyntaxError on the missing version. The
  builder returns the cells, fee (\<open>10\<close>) and balance changes of \<open>0x02\<close>, with a parsed
  witness that records the SyntaxError.\<close>

theorem getTxMessage_witness_errors_caught_witness:
  "get_transaction ledger ''0x03'' = Inr (Some truncatedTx)
   \<and> map (resolveInput ledger) (inputs (transaction truncatedTx))
       = map Inr [(openOutput, channelCell)]
   \<and> parseWitness plainHost ''0x00000000000000000000000000000000ff'' = Inl SyntaxError
   \<and> decodeWitness plainHost (nth_opt (witnesses (transaction truncatedTx)) 0)
        (args (lock (fst ([(openOutput, channelCell)] ! 0)))) = Inl SyntaxError
   \<and> map_sum id (\<lambda>m. (parsed_witness m, input_cells m, output_cells m, fee m, udt_fee m,
                        set (balance_changes m)))
        (getTxMessage plainHost ledger [] commitmentHash ''0x03'')
      = Inr (Some \<lparr> empty_witness_args = [], unlock_type = None, unlock_count = None,
                    revocation = None, non_pending_htlc = None, pending_htlc = None,
                    settlement = None, pw_error = Some SyntaxError \<rparr>,
             [channelCell],
             [\<lparr> ci_args = ''0xb0b0'', ci_capacity = 990, ci_lock = None,
                udt_args = None, udt_capacity = None \<rparr>],
             ''10'', ''0'',
             {(args channelLock, \<lparr> ckb = ''-1000'', udt = ''0'' \<rparr>),
              (''0xb0b0'', \<lparr> ckb = ''990'', udt = ''0'' \<rparr>)})"
proof -
  let ?prevs = "[(openOutput, channelCell)]"
  let ?ocs = "[\<lparr> ci_args = ''0xb0b0'', ci_capacity = 990, ci_lock = None,
                  udt_args = None, udt_capacity = None \<rparr>]"
  let ?bm = "[(args channelLock, - 1000, 0), (''0xb0b0'', 990, 0 :: int)]"
  have 1: "get_transaction ledger ''0x03'' = Inr (Some truncatedTx)"
    by (simp add: ledger_def ledgerTransaction_def)
  have 2: "map (resolveInput ledger) (inputs (transaction truncatedTx)) = map Inr ?prevs"
    by (simp add: channelCell_def eval_builder eval_ledger eval_prims)
  have 3: "sequence (map (outputCell (transaction truncatedTx))
                       (enumerate 0 (outputs (transaction truncatedTx)))) = Inr ?ocs"
    by (simp add: eval_builder eval_ledger eval_prims)
  have 4: "updateAll []
           (map (\<lambda>c. (ci_args c, - ci_capacity c, - udtOrZero c)) (map snd ?prevs)
            @ map (\<lambda>c. (ci_args c, ci_capacity c, udtOrZero c)) ?ocs) = Inr ?bm"
    by (simp add: channelCell_def eval_builder eval_ledger)
  have 5: "List.find (\<lambda>i. code_hash (lock (fst (?prevs ! i))) = commitmentHash
                        \<and> 72 \<le> length (strip0x (args (lock (fst (?prevs ! i))))))
           (completionOrder [] (length ?prevs)) = Some 0"
    by (simp add: eval_builder eval_ledger eval_prims)
  have p: "parseWitness plainHost ''0x00000000000000000000000000000000ff'' = Inl SyntaxError"
    by (simp add: parseWitness_def eval_prims)
  have 6: "decodeWitness plainHost (nth_opt (witnesses (transaction truncatedTx)) 0)
           (args (lock (fst (?prevs ! 0)))) = Inl SyntaxError"
    by (simp add: eval_builder eval_ledger eval_prims parseWitness_def)
  note t = getTxMessage_witness_errors_caught [OF 1 2 3 4 5 6]
  from t have r: "map_sum id (\<lambda>m. (parsed_witness m, input_cells m, output_cells m, fee m,
                        udt_fee m, set (balance_changes m)))
        (getTxMessage plainHost ledger [] commitmentHash ''0x03'')
      = Inr (Some \<lparr> empty_witness_args = [], unlock_type = None, unlock_count = None,
                    revocation = None, non_pending_htlc = None, pending_htlc = None,
                    settlement = None, pw_error = Some SyntaxError \<rparr>,
             [channelCell],
             [\<lparr> ci_args = ''0xb0b0'', ci_capacity = 990, ci_lock = None,
                udt_args = None, udt_capacity = None \<rparr>],
             ''10'', ''0'',
             {(args channelLock, \<lparr> ckb = ''-1000'', udt = ''0'' \<rparr>),
              (''0xb0b0'', \<lparr> ckb = ''990'', udt = ''0'' \<rparr>)})"
    by (simp add: channelCell_def udtOrZero_def toString_def digitsOf.simps digitChar_def)
  show ?thesis
    using 1 2 p 6 r by (simp only:)
qed

section \<open>ChannelDeathTracer: the death lookup\<close>

text \<open>
  Claim C7. Let the transaction be found, let it have a first output, and let the
  indexer answer the query for that output's lock script with the list \<open>objects\<close>. Then
  \<open>getLnCellDeathHash\<close> returns the second object together with the lock's code hash if
  \<open>objects\<close> has exactly two elements, and no next transaction for every other count.
  In the latter case the walk ends without an error: the loop of \<open>getLnTxTrace\<close>
  returns the trace collected so far, and \<open>getLnTxTrace\<close> started at that transaction
  returns the one-element trace.
\<close>

theorem getLnCellDeathHash_exactly_two:
  assumes "get_transaction ch txHash = Inr (Some txData)"
    and "outputs (transaction txData) = output0 # rest"
    and "get_transactions ch (lock output0) = Inr (Some objects)"
  shows "getLnCellDeathHash ch txHash =
           Inr (if length objects = 2
                then \<lparr> dr_txHash = Some (objects ! 1),
                       dr_codeHash = Some (code_hash (lock output0)) \<rparr>
                else \<lparr> dr_txHash = None, dr_codeHash = None \<rparr>)
       \<and> (length objects \<noteq> 2 \<longrightarrow>
            traceLoop h ch order cch txHash txTrace = Some (Inr txTrace))
       \<and> (length objects \<noteq> 2 \<and> getTxMessage h ch (order txHash) cch txHash = Inr openMsg \<longrightarrow>
            getLnTxTrace h ch order cch txHash
              = Some (Inr [\<lparr> ti_tx_hash = txHash, msg = openMsg \<rparr>]))"
proof (intro conjI impI)
  show d: "getLnCellDeathHash ch txHash =
           Inr (if length objects = 2
                then \<lparr> dr_txHash = Some (objects ! 1),
                       dr_codeHash = Some (code_hash (lock output0)) \<rparr>
                else \<lparr> dr_txHash = None, dr_codeHash = None \<rparr>)"
    using assms by (simp add: getLnCellDeathHash_def)
  show "traceLoop h ch order cch txHash txTrace = Some (Inr txTrace)"
    if "length objects \<noteq> 2"
    using that d by (subst traceLoop.simps) simp
  show "getLnTxTrace h ch order cch txHash
              = Some (Inr [\<lparr> ti_tx_hash = txHash, msg = openMsg \<rparr>])"
    if "length objects \<noteq> 2 \<and> getTxMessage h ch (order txHash) cch txHash = Inr openMsg"
    using that d by (simp add: getLnTxTrace_def)
qed

text \<open>On the ledger: the lock of the first output of \<open>0x01\<close> is known to the indexer
  with two transactions, so the lookup returns the second, \<open>0x02\<close>, and the commitment
  code hash; the lock of the first output of \<open>0x02\<close> is known with one transaction, so
  the lookup returns nothing and the loop hands back its trace.\<close>

theorem getLnCellDeathHash_exactly_two_witness:
  "get_transaction ledger ''0x01'' = Inr (Some openTx)
   \<and> outputs (transaction openTx) = openOutput # [openOutput2]
   \<and> get_transactions ledger (lock openOutput) = Inr (Some [''0x01'', ''0x02''])
   \<and> getLnCellDeathHash ledger ''0x01''
       = Inr \<lparr> dr_txHash = Some ''0x02'', dr_codeHash = Some commitmentHash \<rparr>
   \<and> get_transaction ledger ''0x02'' = Inr (Some closeTx)
   \<and> get_transactions ledger payeeLock = Inr (Some [''0x02''])
   \<and> getLnCellDeathHash ledger ''0x02'' = Inr \<lparr> dr_txHash = None, dr_codeHash = None \<rparr>
   \<and> traceLoop plainHost ledger (\<lambda>txHash. []) commitmentHash ''0x02'' [] = Some (Inr [])"
proof -
  have a1: "get_transaction ledger ''0x01'' = Inr (Some openTx)"
    and a2: "outputs (transaction openTx) = openOutput # [openOutput2]"
    and a3: "get_transactions ledger (lock openOutput) = Inr (Some [''0x01'', ''0x02''])"
    by (simp_all add: eval_ledger)
  have b1: "get_transaction ledger ''0x02'' = Inr (Some closeTx)"
    and b2: "outputs (transaction closeTx)
               = \<lparr> capacity = ''0x3de'', lock = payeeLock, type_script = None \<rparr> # []"
    and b3: "get_transactions ledger
               (lock \<lparr> capacity = ''0x3de'', lock = payeeLock, type_script = None \<rparr>)
               = Inr (Some [''0x02''])"
    by (simp_all add: eval_ledger)
  note a = getLnCellDeathHash_exactly_two [OF a1 a2 a3]
  note b = getLnCellDeathHash_exactly_two [OF b1 b2 b3,
             of plainHost "\<lambda>txHash. []" commitmentHash "[]"]
  from a have ra: "getLnCellDeathHash ledger ''0x01''
       = Inr \<lparr> dr_txHash = Some ''0x02'', dr_codeHash = Some commitmentHash \<rparr>"
    by (simp add: eval_ledger)
  from b have rb: "getLnCellDeathHash ledger ''0x02'' = Inr \<lparr> dr_txHash = None, dr_codeHash = None \<rparr>"
    and rc: "traceLoop plainHost ledger (\<lambda>txHash. []) commitmentHash ''0x02'' [] = Some (Inr [])"
    by simp_all
  have b3': "get_transactions ledger payeeLock = Inr (Some [''0x02''])"
    using b3 by simp
  show ?thesis
    using a1 a2 a3 ra b1 b3' rb rc by (simp only:)
qed

section \<open>BalanceAggregator: auxiliary facts\<close>

lemma accumulated_step:
  "accumulated (accumulated old [(u, a)]) cs = accumulated old ((u, a) # cs)"
  by (cases old) (auto simp: accumulated_def split: list.splits)

lemma accumulated_Nil: "accumulated old [] = old"
  by (cases old) (auto simp: accumulated_def)

lemma udtAccumulate_map_of:
  "map_of (udtAccumulate key u a m) k
     = (if k = key then accumulated (map_of m key) [(u, a)] else map_of m k)"
  by (induction key u a m rule: udtAccumulate.induct) (auto simp: accumulated_def)

lemma udtAccumulate_keys:
  "fst ` set (udtAccumulate key u a m) = insert key (fst ` set m)"
  by (induction key u a m rule: udtAccumulate.induct) auto

lemma udtAccumulate_distinct:
  "distinct (map fst m) \<Longrightarrow> distinct (map fst (udtAccumulate key u a m))"
proof (induction key u a m rule: udtAccumulate.induct)
  case (1 key matchedUdt amount)
  then show ?case by simp
next
  case (2 key matchedUdt amount k existing m)
  then show ?case
    using udtAccumulate_keys [of key matchedUdt amount m] by auto
qed

lemma udtAccumulate_keyed:
  "\<forall>(k, e) \<in> set m. k = udtKey (typeScript e) \<Longrightarrow>
   \<forall>(k, e) \<in> set (udtAccumulate (udtKey (cfg_script u)) u a m). k = udtKey (typeScript e)"
  by (induction "udtKey (cfg_script u)" u a m rule: udtAccumulate.induct) auto

lemma contributions_Cons:
  "contributions cfg k (c # rest) =
     (case matchedUdt cfg c of
        None \<Rightarrow> contributions cfg k rest
      | Some u \<Rightarrow> if udtKey (cfg_script u) = k then (u, amountOf c) # contributions cfg k rest
                  else contributions cfg k rest)"
  by (simp add: contributions_def map_filter_simps split: option.splits)

lemma contributions_Nil: "contributions cfg k [] = []"
  by (simp add: contributions_def map_filter_simps)

lemma balanceLoop_inv:
  assumes "balanceLoop cfg cs (b, n, m) = Inr (b', n', m')"
  shows "b' = b + sum_list (map capacityOf (filter (\<lambda>c. matchedUdt cfg c = None) cs))
       \<and> n' = n + length (filter (\<lambda>c. matchedUdt cfg c = None) cs)
       \<and> (\<forall>c \<in> set cs. matchedUdt cfg c = None \<longrightarrow> BigInt (lc_capacity c) = Inr (capacityOf c))
       \<and> (\<forall>c \<in> set cs. matchedUdt cfg c \<noteq> None \<longrightarrow> cellAmount c = Inr (amountOf c))
       \<and> (\<forall>k. map_of m' k = accumulated (map_of m k) (contributions cfg k cs))
       \<and> (distinct (map fst m) \<longrightarrow> distinct (map fst m'))
       \<and> ((\<forall>(k, e) \<in> set m. k = udtKey (typeScript e))
            \<longrightarrow> (\<forall>(k, e) \<in> set m'. k = udtKey (typeScript e)))"
  using assms
proof (induction cs arbitrary: b n m)
  case Nil
  then show ?case by (simp add: contributions_Nil accumulated_Nil)
next
  case (Cons c rest)
  show ?case
  proof (cases "matchedUdt cfg c")
    case None
    then obtain cap where cap: "BigInt (lc_capacity c) = Inr cap"
      and r: "balanceLoop cfg rest (b + cap, n + 1, m) = Inr (b', n', m')"
      using Cons.prems by (auto simp: matchedUdt_def split: option.splits sum.splits)
    have co: "capacityOf c = cap"
      by (simp add: capacityOf_def cap)
    from Cons.IH [OF r] None co cap show ?thesis
      by (simp add: contributions_Cons)
  next
    case (Some u)
    then obtain a where a: "cellAmount c = Inr a"
      and r: "balanceLoop cfg rest (b, n, udtAccumulate (udtKey (cfg_script u)) u a m)
                = Inr (b', n', m')"
      using Cons.prems by (auto simp: matchedUdt_def Let_def split: option.splits sum.splits)
    have am: "amountOf c = a"
      by (simp add: amountOf_def a)
    note ih = Cons.IH [OF r]
    have "map_of m' k = accumulated (map_of m k) (contributions cfg k (c # rest))" for k
      using ih Some am
      by (simp add: contributions_Cons udtAccumulate_map_of accumulated_step)
    moreover have "distinct (map fst m) \<longrightarrow> distinct (map fst m')"
      using ih udtAccumulate_distinct by blast
    moreover have "(\<forall>(k, e) \<in> set m. k = udtKey (typeScript e))
            \<longrightarrow> (\<forall>(k, e) \<in> set m'. k = udtKey (typeScript e))"
      using ih udtAccumulate_keyed by blast
    ultimately show ?thesis
      using ih Some a am by simp
  qed
qed

lemma find_by_key:
  "distinct (map fst m) \<Longrightarrow> \<forall>(k, e) \<in> set m. k = udtKey (typeScript e) \<Longrightarrow>
   List.find (\<lambda>b. udtKey (typeScript b) = k) (map snd m) = map_of m k"
  by (induction m) (auto simp: rev_image_eqI)

lemma findUdt_in_set: "findUdt cfg t = Some u \<Longrightarrow> u \<in> set cfg"
  by (induction cfg) (auto simp: findUdt_def split: if_splits)

lemma matchedUdt_in_set: "matchedUdt cfg c = Some u \<Longrightarrow> u \<in> set cfg"
  by (auto simp: matchedUdt_def findUdt_in_set split: option.splits)

lemma contributions_inj:
  assumes "inj_on (\<lambda>u. udtKey (cfg_script u)) (set cfg)" and "u \<in> set cfg"
  shows "contributions cfg (udtKey (cfg_script u)) cs
           = map (\<lambda>c. (u, amountOf c)) (filter (\<lambda>c. matchedUdt cfg c = Some u) cs)"
proof (induction cs)
  case Nil
  then show ?case by (simp add: contributions_Nil)
next
  case (Cons c rest)
  have "v = u" if "matchedUdt cfg c = Some v" "udtKey (cfg_script v) = udtKey (cfg_script u)" for v
    using that assms matchedUdt_in_set [of cfg c v] by (auto dest: inj_onD)
  with Cons show ?case
    by (auto simp: contributions_Cons split: option.splits)
qed

lemma toIntFromBigUint128Le_0x:
  "s \<noteq> [] \<Longrightarrow> isHex s \<Longrightarrow> even (length s) \<Longrightarrow>
   toIntFromBigUint128Le (CHR ''0'' # CHR ''x'' # s) = Inr (littleEndianValue (hexBytes s))"
  using littleEndianHexToBigInt_even [of s]
  by (simp add: toIntFromBigUint128Le_def littleEndianHexToBigInt_def startsWith_def)

lemma cellAmount_short:
  "length (strip0x (lc_data c)) < 32 \<Longrightarrow> cellAmount c = Inr 0"
  by (simp add: cellAmount_def strip0x_def Let_def)

lemma cellAmount_long:
  assumes "32 \<le> length (strip0x (lc_data c))" and "isHex (take 32 (strip0x (lc_data c)))"
  shows "cellAmount c = Inr (littleEndianValue (hexBytes (take 32 (strip0x (lc_data c)))))"
proof -
  have "toIntFromBigUint128Le (CHR ''0'' # CHR ''x'' # take 32 (strip0x (lc_data c)))
          = Inr (littleEndianValue (hexBytes (take 32 (strip0x (lc_data c)))))"
    using assms by (intro toIntFromBigUint128Le_0x) auto
  then show ?thesis
    using assms(1) by (simp add: cellAmount_def strip0x_def Let_def substring_def)
qed

lemmas eval_aggregator = toLowerCaseChar_def toLowerCase_def scriptEquals_def findUdt_def
  udtKey_def cellAmount_def computeAccountBalance_def matchedUdt_def capacityOf_def
  amountOf_def udtA_def udtB_def cellOfA_def cellOfB_def plainCell_def udt42Cell_def
  payeeLock_def

section \<open>BalanceAggregator: what is summed where\<close>

text \<open>
  Claim C8 says that every cell matching a registered UDT script adds its amount to
  that UDT's balance and increments that UDT's cell count. The match is made by
  \<open>scriptEquals\<close>, which compares code hash, hash type and args; the running entries of
  \<open>udtMap\<close> are keyed by \<open>code_hash:args\<close> of the matched script, without the hash type.
  Take two registered scripts \<open>A\<close> and \<open>B\<close> that differ in hash type only (\<open>type\<close> and
  \<open>data1\<close>), one cell of \<open>A\<close> holding 5 and one cell of \<open>B\<close> holding 7. The cell of \<open>B\<close>
  matches \<open>B\<close> and does not match \<open>A\<close>, but the two scripts have the same key: the
  result has no entry for \<open>B\<close>, and its one entry is that of \<open>A\<close>, with balance 12 and
  two cells, although only one cell, of amount 5, matches \<open>A\<close>.
\<close>

theorem computeAccountBalance_merges_hash_types:
  "lc_type cellOfA = Some (cfg_script udtA) \<and> lc_type cellOfB = Some (cfg_script udtB)
   \<and> findUdt [udtA, udtB] (cfg_script udtA) = Some udtA
   \<and> findUdt [udtA, udtB] (cfg_script udtB) = Some udtB
   \<and> \<not> scriptEquals (cfg_script udtA) (cfg_script udtB)
   \<and> udtKey (cfg_script udtA) = ''0xaa:0x'' \<and> udtKey (cfg_script udtB) = ''0xaa:0x''
   \<and> cellAmount cellOfA = Inr 5 \<and> cellAmount cellOfB = Inr 7
   \<and> computeAccountBalance [cellOfA, cellOfB] [udtA, udtB] testnet
       = Inr \<lparr> ckbBalance = 0, ckbCellCount = 0,
               udtBalances = [\<lparr> ub_name = ''A'', typeScript = cfg_script udtA, balance = 12,
                                cellCount = 2 \<rparr>],
               cells = [cellOfA, cellOfB], network = testnet \<rparr>"
  by (simp add: eval_aggregator eval_prims)

text \<open>
  What the aggregator computes when the keys \<open>code_hash:args\<close> of the registered scripts
  are pairwise distinct (two scripts that differ in hash type only, or whose code hash
  and args meet at a different place around the colon, have the same key). Let
  \<open>computeAccountBalance\<close> return \<open>r\<close>. A cell is a base-currency cell when it has
  no type script or its type script equals no registered script (\<open>scriptEquals\<close>: code
  hash and args compared in lower case, hash type exactly). Then \<open>ckbBalance\<close> is the
  sum of the capacities of the base-currency cells and \<open>ckbCellCount\<close> their number;
  and for every registered UDT, the entry of \<open>udtBalances\<close> with its key
  is absent if no cell matches it and otherwise carries its name and script, the sum
  of the amounts of the cells matching it, and their number. The amount of a matching
  cell is zero when its data, less the \<open>0x\<close> prefix, has fewer than 32 hexadecimal
  characters (16 bytes), and otherwise the little-endian value of its first 16 bytes.
\<close>

lemma computeAccountBalance_totals:
  assumes "computeAccountBalance cellList cfg net = Inr r"
    and "inj_on (\<lambda>u. udtKey (cfg_script u)) (set cfg)"
  shows "ckbBalance r = sum_list (map capacityOf (filter (\<lambda>c. matchedUdt cfg c = None) cellList))
       \<and> ckbCellCount r = length (filter (\<lambda>c. matchedUdt cfg c = None) cellList)
       \<and> (\<forall>c \<in> set cellList. matchedUdt cfg c = None \<longrightarrow>
             BigInt (lc_capacity c) = Inr (capacityOf c))
       \<and> (\<forall>u \<in> set cfg.
             List.find (\<lambda>b. udtKey (typeScript b) = udtKey (cfg_script u)) (udtBalances r)
               = (if filter (\<lambda>c. matchedUdt cfg c = Some u) cellList = [] then None
                  else Some \<lparr> ub_name = cfg_name u, typeScript = cfg_script u,
                              balance = sum_list (map amountOf
                                          (filter (\<lambda>c. matchedUdt cfg c = Some u) cellList)),
                              cellCount = length
                                          (filter (\<lambda>c. matchedUdt cfg c = Some u) cellList) \<rparr>))
       \<and> (\<forall>c \<in> set cellList. matchedUdt cfg c \<noteq> None \<longrightarrow>
             cellAmount c = Inr (amountOf c)
             \<and> (length (strip0x (lc_data c)) < 32 \<longrightarrow> amountOf c = 0)
             \<and> (32 \<le> length (strip0x (lc_data c)) \<and> isHex (take 32 (strip0x (lc_data c)))
                  \<longrightarrow> amountOf c = littleEndianValue (hexBytes (take 32 (strip0x (lc_data c))))))"
proof -
  from assms(1) obtain b n m where
    loop: "balanceLoop cfg cellList (0, 0, []) = Inr (b, n, m)"
    and r: "r = \<lparr> ckbBalance = b, ckbCellCount = n, udtBalances = map snd m,
                  cells = cellList, network = net \<rparr>"
    by (auto simp: computeAccountBalance_def split: sum.splits prod.splits)
  note inv = balanceLoop_inv [OF loop]
  have dist: "distinct (map fst m)" and keyed: "\<forall>(k, e) \<in> set m. k = udtKey (typeScript e)"
    using inv by simp_all
  have entry: "List.find (\<lambda>b. udtKey (typeScript b) = udtKey (cfg_script u)) (map snd m)
        = (if filter (\<lambda>c. matchedUdt cfg c = Some u) cellList = [] then None
           else Some \<lparr> ub_name = cfg_name u, typeScript = cfg_script u,
                       balance = sum_list (map amountOf
                                   (filter (\<lambda>c. matchedUdt cfg c = Some u) cellList)),
                       cellCount = length
                                   (filter (\<lambda>c. matchedUdt cfg c = Some u) cellList) \<rparr>)"
    if "u \<in> set cfg" for u
  proof -
    have "map_of m (udtKey (cfg_script u))
            = accumulated None (map (\<lambda>c. (u, amountOf c))
                                 (filter (\<lambda>c. matchedUdt cfg c = Some u) cellList))"
      using inv contributions_inj [OF assms(2) that, of cellList] by simp
    then show ?thesis
      unfolding find_by_key [OF dist keyed]
      by (cases "filter (\<lambda>c. matchedUdt cfg c = Some u) cellList")
         (simp_all add: accumulated_def comp_def)
  qed
  have amt: "cellAmount c = Inr (amountOf c)
             \<and> (length (strip0x (lc_data c)) < 32 \<longrightarrow> amountOf c = 0)
             \<and> (32 \<le> length (strip0x (lc_data c)) \<and> isHex (take 32 (strip0x (lc_data c)))
                  \<longrightarrow> amountOf c = littleEndianValue (hexBytes (take 32 (strip0x (lc_data c)))))"
    if "c \<in> set cellList" "matchedUdt cfg c \<noteq> None" for c
    using that inv cellAmount_short [of c] cellAmount_long [of c] by (auto simp: amountOf_def)
  show ?thesis
    using inv entry amt by (simp add: r)
qed

text \<open>The example of the specification: one plain cell of capacity 500 and one cell of
  the registered UDT \<open>A\<close> (its type script written with a capital code hash) holding
  42.\<close>

lemma computeAccountBalance_totals_example:
  "computeAccountBalance [plainCell, udt42Cell] [udtA] testnet = Inr sampleBalance
   \<and> inj_on (\<lambda>u. udtKey (cfg_script u)) (set [udtA])
   \<and> filter (\<lambda>c. matchedUdt [udtA] c = None) [plainCell, udt42Cell] = [plainCell]
   \<and> filter (\<lambda>c. matchedUdt [udtA] c = Some udtA) [plainCell, udt42Cell] = [udt42Cell]
   \<and> ckbBalance sampleBalance = capacityOf plainCell
   \<and> capacityOf plainCell = 500
   \<and> ckbCellCount sampleBalance = 1
   \<and> List.find (\<lambda>b. udtKey (typeScript b) = udtKey (cfg_script udtA)) (udtBalances sampleBalance)
       = Some \<lparr> ub_name = ''A'', typeScript = cfg_script udtA, balance = amountOf udt42Cell,
                cellCount = 1 \<rparr>
   \<and> amountOf udt42Cell = 42"
proof -
  have run: "computeAccountBalance [plainCell, udt42Cell] [udtA] testnet = Inr sampleBalance"
    by (simp add: sampleBalance_def eval_aggregator eval_prims)
  have inj: "inj_on (\<lambda>u. udtKey (cfg_script u)) (set [udtA])"
    by simp
  have f1: "filter (\<lambda>c. matchedUdt [udtA] c = None) [plainCell, udt42Cell] = [plainCell]"
    and f2: "filter (\<lambda>c. matchedUdt [udtA] c = Some udtA) [plainCell, udt42Cell] = [udt42Cell]"
    by (simp_all add: eval_aggregator)
  have v: "capacityOf plainCell = 500" "amountOf udt42Cell = 42"
    by (simp_all add: eval_aggregator eval_prims)
  have nm: "cfg_name udtA = ''A''"
    by (simp add: udtA_def)
  note t = computeAccountBalance_totals [OF run inj]
  from t have 1: "ckbBalance sampleBalance = capacityOf plainCell"
    unfolding f1 by simp
  from t have 2: "ckbCellCount sampleBalance = 1"
    unfolding f1 by simp
  from t have "List.find (\<lambda>b. udtKey (typeScript b) = udtKey (cfg_script udtA))
                    (udtBalances sampleBalance)
       = (if filter (\<lambda>c. matchedUdt [udtA] c = Some udtA) [plainCell, udt42Cell] = [] then None
          else Some \<lparr> ub_name = cfg_name udtA, typeScript = cfg_script udtA,
                  balance = sum_list (map amountOf
                     (filter (\<lambda>c. matchedUdt [udtA] c = Some udtA) [plainCell, udt42Cell])),
                  cellCount = length
                     (filter (\<lambda>c. matchedUdt [udtA] c = Some udtA) [plainCell, udt42Cell]) \<rparr>)"
    by simp
  then have 3: "List.find (\<lambda>b. udtKey (typeScript b) = udtKey (cfg_script udtA))
                    (udtBalances sampleBalance)
       = Some \<lparr> ub_name = ''A'', typeScript = cfg_script udtA, balance = amountOf udt42Cell,
                cellCount = 1 \<rparr>"
    unfolding f2 by (simp add: nm)
  show ?thesis
    using run inj f1 f2 1 2 3 v by (simp only:)
qed

end
